theory Spec2Isabelle
  imports Complex_Main "HOL-Library.Log_Nat"
begin

section \<open>Python numbers\<close>

text \<open>
  Both scripts compute pixel positions and colour channels with Python floats
  (IEEE 754 binary64) and convert back with \<open>int()\<close>. A float is modelled by the
  rational number it denotes; every arithmetic operation computes the exact rational
  result and rounds it to the nearest binary64 value, ties to even, as the hardware does.
  Subnormal numbers are covered (the exponent is clipped at \<open>-1022\<close>); overflow to
  infinity is not, so the model is binary64 for magnitudes below \<open>2 ^ 1024\<close>. Every
  float computed by the scripts stays far below that bound, because a canvas dimension
  never exceeds \<open>2 ^ 31\<close> (see \<open>Image_new\<close>).
\<close>

definition rne :: "rat \<Rightarrow> int" where
  \<comment> \<open>round to the nearest integer, ties to the even one\<close>
  "rne q = (let f = \<lfloor>q\<rfloor>; r = q - of_int f
            in if r < 1/2 then f else if 1/2 < r then f + 1
               else if even f then f else f + 1)"

definition ilog2 :: "rat \<Rightarrow> int" where
  \<comment> \<open>the binary exponent \<open>\<lfloor>log\<^sub>2 \<bar>x\<bar>\<rfloor>\<close> of a non-zero rational\<close>
  "ilog2 x = (let (p, q) = quotient_of \<bar>x\<bar>; k = bitlen p - bitlen q
              in if 2 powi k \<le> \<bar>x\<bar> then k else k - 1)"

definition ulp :: "rat \<Rightarrow> rat" where
  \<comment> \<open>spacing of the binary64 numbers around \<open>x\<close>: 53 significant bits\<close>
  "ulp x = 2 powi (max (ilog2 x) (- 1022) - 52)"

definition fl :: "rat \<Rightarrow> rat" where
  \<comment> \<open>the binary64 number nearest to \<open>x\<close>\<close>
  "fl x = of_int (rne (x / ulp x)) * ulp x"

definition py_float :: "int \<Rightarrow> rat" where
  \<comment> \<open>conversion of an \<open>int\<close> operand in mixed arithmetic\<close>
  "py_float n = fl (of_int n)"

definition fadd :: "rat \<Rightarrow> rat \<Rightarrow> rat" where
  "fadd a b = fl (a + b)"

definition fmul :: "rat \<Rightarrow> rat \<Rightarrow> rat" where
  "fmul a b = fl (a * b)"

definition fdiv :: "rat \<Rightarrow> rat \<Rightarrow> rat" where
  \<comment> \<open>callers divide by non-zero values only\<close>
  "fdiv a b = fl (a / b)"

definition int_truediv :: "int \<Rightarrow> int \<Rightarrow> rat" where
  \<comment> \<open>\<open>a / b\<close> on two ints: the correctly rounded quotient\<close>
  "int_truediv a b = fl (of_int a / of_int b)"

definition py_int :: "rat \<Rightarrow> int" where
  \<comment> \<open>\<open>int(x)\<close> on a float truncates toward zero\<close>
  "py_int x = (if 0 \<le> x then \<lfloor>x\<rfloor> else \<lceil>x\<rceil>)"

definition py_min :: "rat \<Rightarrow> rat \<Rightarrow> rat" where
  \<comment> \<open>\<open>min(a, b)\<close>: the first argument unless the second is smaller\<close>
  "py_min a b = (if b < a then b else a)"

definition py_max :: "rat \<Rightarrow> rat \<Rightarrow> rat" where
  "py_max a b = (if a < b then b else a)"

definition int_times_float :: "int \<Rightarrow> rat \<Rightarrow> rat" where
  \<comment> \<open>\<open>n * x\<close> with an int \<open>n\<close> and a float \<open>x\<close>\<close>
  "int_times_float n x = fmul (py_float n) x"

definition int_plus_float :: "int \<Rightarrow> rat \<Rightarrow> rat" where
  "int_plus_float n x = fadd (py_float n) x"

section \<open>The imaging library as the scripts use it\<close>

text \<open>
  The scripts draw through Pillow. The library is not part of the repository, so a
  canvas is modelled by what the scripts decide about it: its mode, its dimensions, its
  initial colour and the drawing calls made on it, in order, with their arguments.
  Canvas dimensions are fixed when the canvas is created; drawing appends a call and
  changes nothing else.

  Drawn text is a list of Unicode code points (the scripts draw currency signs outside
  Latin-1). Colour strings are 8-bit strings.
\<close>

datatype py_error =
    ImageSizeError    \<comment> \<open>\<open>Image.new\<close> rejects the size\<close>
  | FontLoadError     \<comment> \<open>\<open>ImageFont.truetype\<close> cannot load the file\<close>
  | TextBBoxError     \<comment> \<open>\<open>draw.textbbox\<close> cannot measure with this font\<close>
  | IntParseError     \<comment> \<open>\<open>int(s, 16)\<close> on a malformed literal\<close>
  | SaveError         \<comment> \<open>\<open>os.makedirs\<close> or \<open>Image.save\<close> fails\<close>

datatype fill =
    NoFill
  | Hex string
  | RGB int int int
  | RGBA int int int int

datatype font = FreeTypeFont string int | DefaultFont

type_synonym point = "int \<times> int"
type_synonym box = "int \<times> int \<times> int \<times> int"
type_synonym pystr = "nat list"

datatype image = Image (img_mode: string) (img_width: int) (img_height: int)
    (img_background: fill)
    (img_ops: "draw_op list")
and draw_op =
    Ellipse box fill fill int               \<comment> \<open>box, fill, outline, outline width\<close>
  | Line point point fill int               \<comment> \<open>end points, colour, width\<close>
  | Polygon "point list" fill
  | Rectangle box fill
  | RoundedRectangle box int fill           \<comment> \<open>box, radius, fill\<close>
  | Text point pystr fill font
  | GaussianBlur int                        \<comment> \<open>the canvas so far, blurred\<close>
  | Paste image point image                 \<comment> \<open>pasted image, position, mask\<close>

record env =
  font_file_loads :: "string \<Rightarrow> int \<Rightarrow> bool"
    \<comment> \<open>whether \<open>ImageFont.truetype(path, size)\<close> succeeds on this machine\<close>
  text_bbox :: "font \<Rightarrow> pystr \<Rightarrow> box option"
    \<comment> \<open>\<open>draw.textbbox((0, 0), text, font)\<close>; \<open>None\<close> when it raises\<close>
  can_write :: "string \<Rightarrow> bool"
    \<comment> \<open>whether the output file can be written\<close>

datatype font_call = Truetype string int | LoadDefault

definition ascii :: "string \<Rightarrow> pystr" where
  "ascii s = map of_char s"

definition Image_new :: "string \<Rightarrow> int \<times> int \<Rightarrow> fill \<Rightarrow> py_error + image" where
  \<comment> \<open>\<open>Image.new(mode, size, color)\<close>: a negative dimension is a \<open>ValueError\<close>, one that
      does not fit a C \<open>int\<close> an \<open>OverflowError\<close>\<close>
  "Image_new m sz c =
     (let (w, h) = sz
      in if w < 0 \<or> h < 0 \<or> 2 ^ 31 \<le> w \<or> 2 ^ 31 \<le> h then Inl ImageSizeError
         else Inr (Image m w h c []))"

definition draw :: "draw_op \<Rightarrow> image \<Rightarrow> image" where
  "draw d img =
     Image (img_mode img) (img_width img) (img_height img) (img_background img) (img_ops img @ [d])"

definition ImageFont_truetype :: "env \<Rightarrow> string \<Rightarrow> int \<Rightarrow> py_error + font" where
  "ImageFont_truetype e path sz =
     (if font_file_loads e path sz then Inr (FreeTypeFont path sz) else Inl FontLoadError)"

definition ImageFont_load_default :: font where
  "ImageFont_load_default = DefaultFont"

fun load_seq :: "env \<Rightarrow> (string \<times> int) list \<Rightarrow> font list option \<times> font_call list" where
  \<comment> \<open>the body of a \<open>try\<close> block of \<open>truetype\<close> calls: the first failure leaves the block\<close>
  "load_seq e [] = (Some [], [])"
| "load_seq e ((path, sz) # rs) =
     (case ImageFont_truetype e path sz of
        Inl _ \<Rightarrow> (None, [Truetype path sz])
      | Inr f \<Rightarrow> (case load_seq e rs of
                   (r, calls) \<Rightarrow> (map_option ((#) f) r, Truetype path sz # calls)))"

definition fonts_or_default :: "env \<Rightarrow> (string \<times> int) list \<Rightarrow> font list \<times> font_call list" where
  \<comment> \<open>\<open>try: f1 = truetype(..); f2 = truetype(..) .. except Exception: f1 = load_default();
      f2 = f1 ..\<close>\<close>
  "fonts_or_default e reqs =
     (case load_seq e reqs of
        (Some fs, calls) \<Rightarrow> (fs, calls)
      | (None, calls) \<Rightarrow> (replicate (length reqs) ImageFont_load_default, calls @ [LoadDefault]))"

definition loads :: "env \<Rightarrow> string \<times> int \<Rightarrow> bool" where
  \<comment> \<open>whether a requested font (file, size) loads on this machine\<close>
  "loads e r = font_file_loads e (fst r) (snd r)"

definition requested_font :: "string \<times> int \<Rightarrow> font" where
  "requested_font r = FreeTypeFont (fst r) (snd r)"

section \<open>Store assets: \<open>create-store-assets.py\<close>\<close>

definition SCREENSHOT_SIZE :: "int \<times> int" where "SCREENSHOT_SIZE = (1280, 800)"
definition PROMO_TILE_SIZE :: "int \<times> int" where "PROMO_TILE_SIZE = (440, 280)"
definition PRIMARY_GRADIENT_START :: string where "PRIMARY_GRADIENT_START = ''#2563eb''"
definition PRIMARY_GRADIENT_END :: string where "PRIMARY_GRADIENT_END = ''#1e40af''"
definition ACCENT :: string where "ACCENT = ''#10b981''"
definition WHITE :: string where "WHITE = ''#ffffff''"
definition TEXT_DARK :: string where "TEXT_DARK = ''#0f172a''"
definition HELVETICA :: string where "HELVETICA = ''/System/Library/Fonts/Helvetica.ttc''"

subsection \<open>\<open>hex_to_rgb\<close>\<close>

definition is_space :: "char \<Rightarrow> bool" where
  \<comment> \<open>the characters Python treats as whitespace, among the first 256\<close>
  "is_space c = (let n = (of_char c :: nat)
                 in (9 \<le> n \<and> n \<le> 13) \<or> (28 \<le> n \<and> n \<le> 32) \<or> n = 133 \<or> n = 160)"

definition hex_digit :: "char \<Rightarrow> int option" where
  "hex_digit c = (let n = (of_char c :: nat)
                  in if 48 \<le> n \<and> n \<le> 57 then Some (int n - 48)
                     else if 97 \<le> n \<and> n \<le> 102 then Some (int n - 87)
                     else if 65 \<le> n \<and> n \<le> 70 then Some (int n - 55)
                     else None)"

fun digits16 :: "bool \<Rightarrow> int \<Rightarrow> string \<Rightarrow> int option" where
  \<comment> \<open>digits with single underscores between them; the flag says that the previous
      character was a digit\<close>
  "digits16 prev acc [] = (if prev then Some acc else None)"
| "digits16 prev acc (c # cs) =
     (if c = CHR ''_'' then (if prev \<and> cs \<noteq> [] then digits16 False acc cs else None)
      else case hex_digit c of
             None \<Rightarrow> None
           | Some d \<Rightarrow> digits16 True (16 * acc + d) cs)"

definition strip_space :: "string \<Rightarrow> string" where
  "strip_space s = rev (dropWhile is_space (rev (dropWhile is_space s)))"

definition split_sign :: "string \<Rightarrow> bool \<times> string" where
  \<comment> \<open>an optional sign; the flag says that the number is negative\<close>
  "split_sign t =
     (case t of
        [] \<Rightarrow> (False, [])
      | c # cs \<Rightarrow> if c = CHR ''+'' then (False, cs)
                  else if c = CHR ''-'' then (True, cs) else (False, t))"

definition skip_prefix :: "string \<Rightarrow> string" where
  \<comment> \<open>an optional \<open>0x\<close> or \<open>0X\<close>, which one underscore may follow\<close>
  "skip_prefix u =
     (case u of
        a # b # cs \<Rightarrow>
          if a = CHR ''0'' \<and> (b = CHR ''x'' \<or> b = CHR ''X'')
          then (case cs of [] \<Rightarrow> cs | c # ds \<Rightarrow> if c = CHR ''_'' then ds else cs)
          else u
      | _ \<Rightarrow> u)"

definition py_int16 :: "string \<Rightarrow> py_error + int" where
  \<comment> \<open>\<open>int(s, 16)\<close>: surrounding whitespace, an optional sign, an optional prefix, then
      the digits\<close>
  "py_int16 s =
     (let (neg, u) = split_sign (strip_space s);
          v = skip_prefix u
      in case digits16 False 0 v of
           None \<Rightarrow> Inl IntParseError
         | Some n \<Rightarrow> Inr (if neg then - n else n))"

definition slice2 :: "string \<Rightarrow> nat \<Rightarrow> string" where
  \<comment> \<open>\<open>s[i : i + 2]\<close>\<close>
  "slice2 s i = take 2 (drop i s)"

definition hex_to_rgb :: "string \<Rightarrow> py_error + (int \<times> int \<times> int)" where
  "hex_to_rgb hex_color =
     (let hex_color = dropWhile (\<lambda>c. c = CHR ''#'') hex_color
      in case py_int16 (slice2 hex_color 0) of
           Inl e \<Rightarrow> Inl e
         | Inr r \<Rightarrow>
             (case py_int16 (slice2 hex_color 2) of
                Inl e \<Rightarrow> Inl e
              | Inr g \<Rightarrow>
                  (case py_int16 (slice2 hex_color 4) of
                     Inl e \<Rightarrow> Inl e
                   | Inr b \<Rightarrow> Inr (r, g, b))))"

subsection \<open>\<open>create_gradient_background\<close>\<close>

definition raw_ratio :: "int \<Rightarrow> int \<Rightarrow> rat" where
  \<comment> \<open>\<open>(y / height + 0.3) / 1.3\<close>\<close>
  "raw_ratio y height = fdiv (fadd (int_truediv y height) (fl (3 / 10))) (fl (13 / 10))"

definition clamp01 :: "rat \<Rightarrow> rat" where
  \<comment> \<open>\<open>min(1.0, max(0.0, ratio))\<close>\<close>
  "clamp01 ratio = py_min 1 (py_max 0 ratio)"

definition blend :: "int \<Rightarrow> int \<Rightarrow> rat \<Rightarrow> int" where
  \<comment> \<open>\<open>int(start + (end - start) * ratio)\<close> for one channel\<close>
  "blend s e ratio = py_int (int_plus_float s (int_times_float (e - s) ratio))"

definition gradient_row :: "int \<Rightarrow> int \<Rightarrow> int \<times> int \<times> int \<Rightarrow> int \<times> int \<times> int \<Rightarrow> int \<Rightarrow> draw_op" where
  \<comment> \<open>the body of the loop over \<open>y\<close>\<close>
  "gradient_row width height start_rgb end_rgb y =
     (let (sr, sg, sb) = start_rgb; (er, eg, eb) = end_rgb;
          ratio = raw_ratio y height;
          ratio = clamp01 ratio;
          r = blend sr er ratio;
          g = blend sg eg ratio;
          b = blend sb eb ratio
      in Line (0, y) (width, y) (RGB r g b) 0)"

definition create_gradient_background :: "int \<times> int \<Rightarrow> string \<Rightarrow> string \<Rightarrow> py_error + image" where
  "create_gradient_background sz start_color end_color =
     (let (width, height) = sz
      in case Image_new ''RGB'' sz (RGB 0 0 0) of
           Inl e \<Rightarrow> Inl e
         | Inr img \<Rightarrow>
             (case hex_to_rgb start_color of
                Inl e \<Rightarrow> Inl e
              | Inr start_rgb \<Rightarrow>
                  (case hex_to_rgb end_color of
                     Inl e \<Rightarrow> Inl e
                   | Inr end_rgb \<Rightarrow>
                       Inr (fold (\<lambda>y. draw (gradient_row width height start_rgb end_rgb y))
                              [0..height - 1] img))))"

definition row_rgb :: "image \<Rightarrow> int \<Rightarrow> (int \<times> int \<times> int) option" where
  \<comment> \<open>what a canvas that was only painted row by row shows in row \<open>y\<close>: the colour of
      drawing call number \<open>y\<close>, if that call is a line over the whole width of row \<open>y\<close>\<close>
  "row_rgb img y =
     (if 0 \<le> y \<and> nat y < length (img_ops img) then
        (case img_ops img ! nat y of
           Line p q (RGB r g b) w \<Rightarrow>
             if p = (0, y) \<and> q = (img_width img, y) then Some (r, g, b) else None
         | _ \<Rightarrow> None)
      else None)"

definition toward_end :: "int \<Rightarrow> int \<Rightarrow> int \<Rightarrow> int \<Rightarrow> bool" where
  \<comment> \<open>two values \<open>c1\<close>, \<open>c2\<close> of one channel, the second from a lower row: they move from
      \<open>s\<close> in the direction of \<open>e\<close> and stay between the two\<close>
  "toward_end s e c1 c2 =
     ((s \<le> e \<longrightarrow> c1 \<le> c2) \<and> (e \<le> s \<longrightarrow> c2 \<le> c1) \<and>
      min s e \<le> c1 \<and> c1 \<le> max s e \<and> min s e \<le> c2 \<and> c2 \<le> max s e)"

subsection \<open>\<open>draw_rounded_rectangle\<close>\<close>

definition draw_rounded_rectangle :: "image \<Rightarrow> box \<Rightarrow> int \<Rightarrow> fill \<Rightarrow> bool \<Rightarrow> image" where
  "draw_rounded_rectangle img xy radius fill shadow =
     (let (x1, y1, x2, y2) = xy
      in draw (RoundedRectangle (x1, y1, x2, y2) radius fill) img)"

subsection \<open>\<open>create_mock_popup\<close>\<close>

definition result_card_row :: "int \<Rightarrow> int \<Rightarrow> int \<Rightarrow> int \<Rightarrow> int \<Rightarrow> draw_op" where
  \<comment> \<open>the body of the loop that paints the gradient of the result card\<close>
  "result_card_row width padding result_y result_height i =
     (let ratio = int_truediv i result_height;
          r = py_int (int_plus_float 37 (int_times_float (30 - 37) ratio));
          g = py_int (int_plus_float 99 (int_times_float (64 - 99) ratio));
          b = py_int (int_plus_float 235 (int_times_float (175 - 235) ratio))
      in Line (padding, result_y + i) (width - padding, result_y + i) (RGB r g b) 0)"

definition quick_access_button :: "font \<Rightarrow> int \<Rightarrow> nat \<times> string \<Rightarrow> image \<times> int \<Rightarrow> image \<times> int" where
  "quick_access_button font_small y ic st =
     (let (i, curr) = ic; (img, btn_x) = st;
          btn_width = 50;
          fill_color = (if i = 1 then PRIMARY_GRADIENT_START else ''#f8fafc'');
          text_color = (if i = 1 then WHITE else ''#64748b'');
          img = draw_rounded_rectangle img (btn_x, y, btn_x + btn_width, y + 28) 14
                  (Hex fill_color) True;
          img = draw (Text (btn_x + 12, y + 6) (ascii curr) (Hex text_color) font_small) img
      in (img, btn_x + btn_width + 8))"

definition create_mock_popup :: "env \<Rightarrow> int \<times> int \<Rightarrow> (py_error + image) \<times> font_call list" where
  "create_mock_popup e sz =
     (let (width, height) = sz
      in case Image_new ''RGBA'' (width, height) (RGBA 255 255 255 255) of
           Inl err \<Rightarrow> (Inl err, [])
         | Inr img \<Rightarrow>
     (let (fonts, calls) = fonts_or_default e
            [(HELVETICA, 16), (HELVETICA, 14), (HELVETICA, 12), (HELVETICA, 32)];
          font_bold = fonts ! 0;
          font_regular = fonts ! 1;
          font_small = fonts ! 2;
          font_large = fonts ! 3;
          padding = 16;
          y = padding;
          \<comment> \<open>Header\<close>
          img = draw (Text (padding, y) (ascii ''QuickCurrency'') (Hex TEXT_DARK) font_bold) img;
          y = y + 40;
          \<comment> \<open>Divider\<close>
          img = draw (Line (padding, y) (width - padding, y) (Hex ''#e2e8f0'') 1) img;
          y = y + 20;
          \<comment> \<open>Amount label\<close>
          img = draw (Text (padding, y) (ascii ''AMOUNT'') (Hex ''#64748b'') font_small) img;
          y = y + 20;
          \<comment> \<open>Amount input (mock)\<close>
          img = draw_rounded_rectangle img (padding, y, width - padding, y + 44) 8
                  (Hex ''#f8fafc'') True;
          img = draw (Rectangle (padding + 1, y + 1, padding + 40, y + 43) (Hex ''#f1f5f9'')) img;
          img = draw (Text (padding + 12, y + 12) (ascii ''$'') (Hex ''#64748b'') font_regular) img;
          img = draw (Text (padding + 52, y + 8) (ascii ''1,000.00'') (Hex TEXT_DARK) font_bold) img;
          y = y + 60;
          \<comment> \<open>Currency selectors\<close>
          img = draw (Text (padding, y) (ascii ''FROM'') (Hex ''#64748b'') font_small) img;
          img = draw (Text (width div 2 + 10, y) (ascii ''TO'') (Hex ''#64748b'') font_small) img;
          y = y + 20;
          \<comment> \<open>From currency box\<close>
          img = draw_rounded_rectangle img (padding, y, width div 2 - 25, y + 40) 8
                  (Hex ''#f8fafc'') True;
          img = draw (Text (padding + 12, y + 10) (ascii ''USD - US Dollar'') (Hex TEXT_DARK)
                  font_regular) img;
          \<comment> \<open>Swap button\<close>
          swap_x = width div 2 - 15;
          img = draw_rounded_rectangle img (swap_x, y, swap_x + 30, y + 40) 8
                  (Hex ''#f8fafc'') True;
          img = draw (Text (swap_x + 8, y + 10) (ascii ''<>'') (Hex ''#64748b'') font_regular) img;
          \<comment> \<open>To currency box\<close>
          img = draw_rounded_rectangle img (width div 2 + 25, y, width - padding, y + 40) 8
                  (Hex ''#f8fafc'') True;
          img = draw (Text (width div 2 + 37, y + 10) (ascii ''EUR - Euro'') (Hex TEXT_DARK)
                  font_regular) img;
          y = y + 60;
          \<comment> \<open>Result card (blue gradient)\<close>
          result_height = 100;
          result_y = y;
          img = fold (\<lambda>i. draw (result_card_row width padding result_y result_height i))
                  [0..result_height - 1] img;
          \<comment> \<open>Round corners of result card\<close>
          img = draw_rounded_rectangle img
                  (padding, result_y, width - padding, result_y + result_height) 12 NoFill True;
          \<comment> \<open>Result text\<close>
          img = draw (Text (padding + 16, result_y + 12) (ascii ''1,000.00 USD ='')
                  (Hex ''#ffffffcc'') font_small) img;
          img = draw (Text (padding + 16, result_y + 35) (ascii ''920.45'') (Hex WHITE)
                  font_large) img;
          img = draw (Text (padding + 120, result_y + 45) (ascii ''EUR'') (Hex ''#ffffffaa'')
                  font_regular) img;
          img = draw (Text (padding + 16, result_y + 75) (ascii ''1 USD = 0.92045 EUR'')
                  (Hex ''#ffffff99'') font_small) img;
          y = y + (result_height + 16);
          \<comment> \<open>Save to History button\<close>
          img = draw_rounded_rectangle img (padding, y, width - padding, y + 40) 8
                  (Hex PRIMARY_GRADIENT_START) True
      in case text_bbox e font_regular (ascii ''Save to History'') of
           None \<Rightarrow> (Inl TextBBoxError, calls)
         | Some bbox \<Rightarrow>
     (let (b0, b1, b2, b3) = bbox;
          text_width = b2 - b0;
          img = draw (Text ((width - text_width) div 2, y + 11) (ascii ''Save to History'')
                  (Hex WHITE) font_regular) img;
          y = y + 56;
          \<comment> \<open>Quick access currencies\<close>
          img = draw (Text (padding, y) (ascii ''QUICK ACCESS'') (Hex ''#64748b'') font_small) img;
          y = y + 22;
          currencies = [''USD'', ''EUR'', ''GBP'', ''JPY'', ''CAD''];
          btn_x = padding;
          (img, btn_x) = fold (quick_access_button font_small y)
                           (zip [0..<length currencies] currencies) (img, btn_x)
      in (Inr img, calls))))"

subsection \<open>The screenshots and the promo tile\<close>

definition create_screenshot_1 :: "env \<Rightarrow> (py_error + image) \<times> font_call list" where
  "create_screenshot_1 e =
     (case create_gradient_background SCREENSHOT_SIZE PRIMARY_GRADIENT_START PRIMARY_GRADIENT_END of
        Inl err \<Rightarrow> (Inl err, [])
      | Inr img \<Rightarrow>
     (let (fonts, calls) = fonts_or_default e [(HELVETICA, 56), (HELVETICA, 28)];
          title_font = fonts ! 0;
          subtitle_font = fonts ! 1;
          \<comment> \<open>Title text on left side\<close>
          title_x = 80;
          title_y = 280;
          img = draw (Text (title_x, title_y) (ascii ''Fast Currency'') (Hex WHITE) title_font) img;
          img = draw (Text (title_x, title_y + 70) (ascii ''Conversion'') (Hex WHITE) title_font) img;
          img = draw (Text (title_x, title_y + 160) (ascii ''200+ currencies including crypto'')
                  (Hex ''#ffffffcc'') subtitle_font) img;
          \<comment> \<open>Create and place mock popup\<close>
          (popup_result, popup_calls) = create_mock_popup e (360, 420)
      in case popup_result of
           Inl err \<Rightarrow> (Inl err, calls @ popup_calls)
         | Inr popup \<Rightarrow>
             \<comment> \<open>Add shadow to popup\<close>
             (case Image_new ''RGBA'' (380, 440) (RGBA 0 0 0 0) of
                Inl err \<Rightarrow> (Inl err, calls @ popup_calls)
              | Inr shadow \<Rightarrow>
                  (let shadow = draw (RoundedRectangle (10, 10, 370, 430) 16 (RGBA 0 0 0 80)) shadow;
                       shadow = draw (GaussianBlur 15) shadow;
                       popup_x = 780;
                       popup_y = 180;
                       img = draw (Paste shadow (popup_x - 10, popup_y - 10) shadow) img;
                       img = draw (Paste popup (popup_x, popup_y) popup) img
                   in (Inr img, calls @ popup_calls)))))"

definition currency_card :: "font \<Rightarrow> font \<Rightarrow> nat \<times> string \<times> pystr \<Rightarrow> image \<Rightarrow> image" where
  \<comment> \<open>the body of the loop over the currency grid\<close>
  "currency_card title_font currency_font ics img =
     (let (i, code, symbol) = ics;
          grid_x = 720; grid_y = 180; card_width = 120; card_height = 80; gap = 16;
          row = int i div 4;
          col = int i mod 4;
          x = grid_x + col * (card_width + gap);
          y = grid_y + row * (card_height + gap);
          img = draw (RoundedRectangle (x, y, x + card_width, y + card_height) 12
                  (Hex ''#ffffff20'')) img;
          img = draw (Text (x + 15, y + 15) symbol (Hex WHITE) title_font) img;
          img = draw (Text (x + 15, y + 55) (ascii code) (Hex ''#ffffffaa'') currency_font) img
      in img)"

definition currencies_grid :: "(string \<times> pystr) list" where
  "currencies_grid =
     [(''USD'', ascii ''$''), (''EUR'', [8364]), (''GBP'', [163]), (''JPY'', [165]),
      (''BTC'', [8383]), (''ETH'', [926]), (''CAD'', ascii ''C$''), (''AUD'', ascii ''A$''),
      (''CHF'', ascii ''Fr''), (''CNY'', [165]), (''INR'', [8377]), (''KRW'', [8361])]"

definition create_screenshot_2 :: "env \<Rightarrow> (py_error + image) \<times> font_call list" where
  "create_screenshot_2 e =
     (case create_gradient_background SCREENSHOT_SIZE ''#10b981'' ''#059669'' of
        Inl err \<Rightarrow> (Inl err, [])
      | Inr img \<Rightarrow>
     (let (fonts, calls) = fonts_or_default e
            [(HELVETICA, 56), (HELVETICA, 28), (HELVETICA, 24)];
          title_font = fonts ! 0;
          subtitle_font = fonts ! 1;
          currency_font = fonts ! 2;
          \<comment> \<open>Title\<close>
          img = draw (Text (80, 280) (ascii ''200+ Currencies'') (Hex WHITE) title_font) img;
          img = draw (Text (80, 360) (ascii ''Including Crypto'') (Hex WHITE) title_font) img;
          img = draw (Text (80, 450) (ascii ''Bitcoin, Ethereum, and more'') (Hex ''#ffffffcc'')
                  subtitle_font) img;
          \<comment> \<open>Currency grid on right\<close>
          img = fold (currency_card title_font currency_font)
                  (zip [0..<length currencies_grid] currencies_grid) img
      in (Inr img, calls)))"

definition create_screenshot_3 :: "env \<Rightarrow> (py_error + image) \<times> font_call list" where
  "create_screenshot_3 e =
     (case create_gradient_background SCREENSHOT_SIZE ''#8b5cf6'' ''#6d28d9'' of
        Inl err \<Rightarrow> (Inl err, [])
      | Inr img \<Rightarrow>
     (let (fonts, calls) = fonts_or_default e [(HELVETICA, 56), (HELVETICA, 28)];
          title_font = fonts ! 0;
          subtitle_font = fonts ! 1;
          \<comment> \<open>Title\<close>
          img = draw (Text (80, 300) (ascii ''Real-time Rates'') (Hex WHITE) title_font) img;
          img = draw (Text (80, 380) (ascii ''Always Up to Date'') (Hex WHITE) title_font) img;
          img = draw (Text (80, 470) (ascii ''Free, no signup required'') (Hex ''#ffffffcc'')
                  subtitle_font) img;
          \<comment> \<open>Clock/refresh icon representation\<close>
          center_x = 900;
          center_y = 400;
          radius = 150;
          img = draw (Ellipse (center_x - radius, center_y - radius, center_x + radius,
                  center_y + radius) NoFill (Hex WHITE) 8) img;
          \<comment> \<open>Clock hands\<close>
          img = draw (Line (center_x, center_y) (center_x, center_y - 80) (Hex WHITE) 6) img;
          img = draw (Line (center_x, center_y) (center_x + 60, center_y + 40) (Hex WHITE) 6) img;
          \<comment> \<open>Center dot\<close>
          img = draw (Ellipse (center_x - 10, center_y - 10, center_x + 10, center_y + 10)
                  (Hex WHITE) NoFill 1) img
      in (Inr img, calls)))"

definition create_promo_tile :: "env \<Rightarrow> (py_error + image) \<times> font_call list" where
  "create_promo_tile e =
     (case create_gradient_background PROMO_TILE_SIZE PRIMARY_GRADIENT_START PRIMARY_GRADIENT_END of
        Inl err \<Rightarrow> (Inl err, [])
      | Inr img \<Rightarrow>
     (let (fonts, calls) = fonts_or_default e
            [(HELVETICA, 32), (HELVETICA, 18), (HELVETICA, 48)];
          title_font = fonts ! 0;
          subtitle_font = fonts ! 1;
          symbol_font = fonts ! 2;
          \<comment> \<open>Icon\<close>
          img = draw (Text (40, 60) (ascii ''$'') (Hex WHITE) symbol_font) img;
          img = draw (Text (90, 70) (ascii ''<>'') (Hex ACCENT) title_font) img;
          img = draw (Text (150, 60) [8364] (Hex WHITE) symbol_font) img;
          \<comment> \<open>Title\<close>
          img = draw (Text (40, 140) (ascii ''QuickCurrency'') (Hex WHITE) title_font) img;
          img = draw (Text (40, 185) (ascii ''Fast currency converter'') (Hex ''#ffffffcc'')
                  subtitle_font) img;
          img = draw (Text (40, 215) (ascii ''200+ currencies'') (Hex ''#ffffffaa'')
                  subtitle_font) img
      in (Inr img, calls)))"

subsection \<open>The driver\<close>

definition save :: "env \<Rightarrow> string \<Rightarrow> image \<Rightarrow> py_error + (string \<times> image)" where
  "save e name img = (if can_write e name then Inr (name, img) else Inl SaveError)"

definition run_asset ::
  "env \<Rightarrow> (env \<Rightarrow> (py_error + image) \<times> font_call list) \<Rightarrow> string \<Rightarrow>
   (py_error + (string \<times> image) list) \<times> font_call list \<Rightarrow>
   (py_error + (string \<times> image) list) \<times> font_call list" where
  \<comment> \<open>one step of the driver: create an asset and write it, unless an earlier step raised\<close>
  "run_asset e create name st =
     (case st of
        (Inl err, calls) \<Rightarrow> (Inl err, calls)
      | (Inr files, calls) \<Rightarrow>
          (case create e of
             (Inl err, calls') \<Rightarrow> (Inl err, calls @ calls')
           | (Inr img, calls') \<Rightarrow>
               (case save e name img of
                  Inl err \<Rightarrow> (Inl err, calls @ calls')
                | Inr file \<Rightarrow> (Inr (files @ [file]), calls @ calls'))))"

definition main :: "env \<Rightarrow> (py_error + (string \<times> image) list) \<times> font_call list" where
  \<comment> \<open>the written files in order, and the calls made to \<open>ImageFont\<close> during the run\<close>
  "main e =
     run_asset e create_promo_tile ''promo-tile-440x280.png''
       (run_asset e create_screenshot_3 ''screenshot-3-realtime.png''
         (run_asset e create_screenshot_2 ''screenshot-2-currencies.png''
           (run_asset e create_screenshot_1 ''screenshot-1-converter.png''
             (if can_write e ''store-assets'' then (Inr [], []) else (Inl SaveError, [])))))"

section \<open>Icons: \<open>create-icons.py\<close>\<close>

definition SIZES :: "int list" where "SIZES = [16, 32, 48, 96, 128]"
definition PRIMARY_COLOR :: fill where "PRIMARY_COLOR = RGB 37 99 235"
definition PRIMARY_DARK :: fill where "PRIMARY_DARK = RGB 30 64 175"
definition PRIMARY_LIGHT :: fill where "PRIMARY_LIGHT = RGB 59 130 246"
definition ICON_WHITE :: fill where "ICON_WHITE = RGB 255 255 255"
definition GREEN :: fill where "GREEN = RGB 16 185 129"

definition get_font :: "env \<Rightarrow> int \<Rightarrow> font" where
  "get_font e sz =
     (let sz = max 8 sz
      in case ImageFont_truetype e ''/System/Library/Fonts/Helvetica.ttc'' sz of
           Inr f \<Rightarrow> f
         | Inl _ \<Rightarrow>
             (case ImageFont_truetype e ''/System/Library/Fonts/SFNSMono.ttf'' sz of
                Inr f \<Rightarrow> f
              | Inl _ \<Rightarrow> ImageFont_load_default))"

definition scaled :: "int \<Rightarrow> rat \<Rightarrow> int" where
  \<comment> \<open>\<open>int(n * c)\<close> for an int \<open>n\<close> and a float literal \<open>c\<close>\<close>
  "scaled n c = py_int (int_times_float n (fl c))"

definition measure_text :: "env \<Rightarrow> font \<Rightarrow> int \<Rightarrow> pystr \<Rightarrow> int \<times> int" where
  \<comment> \<open>\<open>try: bbox = draw.textbbox((0, 0), text, font=font) .. except Exception: ..\<close>\<close>
  "measure_text e font font_size txt =
     (case text_bbox e font txt of
        Some (b0, b1, b2, b3) \<Rightarrow> (b2 - b0, b3 - b1)
      | None \<Rightarrow> (font_size div 2, font_size))"

definition margin_of :: "int \<Rightarrow> int" where
  "margin_of sz = scaled sz (8 / 100)"

definition coin_size_of :: "int \<Rightarrow> int" where
  "coin_size_of sz = scaled sz (62 / 100)"

definition font_size_of :: "int \<Rightarrow> int" where
  "font_size_of sz = max 10 (scaled (coin_size_of sz) (45 / 100))"

definition create_currency_icon :: "env \<Rightarrow> int \<Rightarrow> py_error + image" where
  "create_currency_icon e sz =
     (case Image_new ''RGBA'' (sz, sz) (RGBA 0 0 0 0) of
        Inl err \<Rightarrow> Inl err
      | Inr img \<Rightarrow>
     (let \<comment> \<open>Calculate dimensions\<close>
          margin = margin_of sz;
          coin_size = coin_size_of sz;
          \<comment> \<open>Coin positions - overlapping\<close>
          coin1_x = margin;
          coin1_y = margin;
          coin2_x = sz - margin - coin_size;
          coin2_y = sz - margin - coin_size;
          \<comment> \<open>Draw second coin (back, EUR) - slightly darker\<close>
          img = draw (Ellipse (coin2_x, coin2_y, coin2_x + coin_size, coin2_y + coin_size)
                  PRIMARY_DARK NoFill 1) img;
          \<comment> \<open>Draw inner circle for depth effect on back coin\<close>
          inner_margin = max 1 (scaled coin_size (8 / 100));
          img = draw (Ellipse (coin2_x + inner_margin, coin2_y + inner_margin,
                  coin2_x + coin_size - inner_margin, coin2_y + coin_size - inner_margin)
                  (RGB 35 75 190) NoFill 1) img;
          \<comment> \<open>Draw first coin (front, USD) - brighter\<close>
          img = draw (Ellipse (coin1_x, coin1_y, coin1_x + coin_size, coin1_y + coin_size)
                  PRIMARY_COLOR NoFill 1) img;
          \<comment> \<open>Draw inner circle for depth effect on front coin\<close>
          img = draw (Ellipse (coin1_x + inner_margin, coin1_y + inner_margin,
                  coin1_x + coin_size - inner_margin, coin1_y + coin_size - inner_margin)
                  PRIMARY_LIGHT NoFill 1) img;
          \<comment> \<open>Draw currency symbols (only for larger sizes)\<close>
          font_size = font_size_of sz;
          font = get_font e font_size;
          \<comment> \<open>Dollar sign on front coin\<close>
          dollar_text = ascii ''$'';
          (text_width, text_height) = measure_text e font font_size dollar_text;
          dollar_x = coin1_x + (coin_size - text_width) div 2;
          dollar_y = coin1_y + (coin_size - text_height) div 2 - scaled sz (2 / 100);
          img = draw (Text (dollar_x, dollar_y) dollar_text ICON_WHITE font) img;
          \<comment> \<open>Euro sign on back coin\<close>
          img = (if 32 \<le> sz then
                   (let euro_text = [8364];
                        (text_width, text_height) = measure_text e font font_size euro_text;
                        euro_x = coin2_x + (coin_size - text_width) div 2;
                        euro_y = coin2_y + (coin_size - text_height) div 2 - scaled sz (2 / 100)
                    in draw (Text (euro_x, euro_y) euro_text (RGB 220 225 240) font) img)
                 else img);
          \<comment> \<open>Draw exchange arrows between coins (only for larger sizes)\<close>
          img = (if 48 \<le> sz then
                   (let arrow_color = GREEN;
                        arrow_thickness = max 2 (scaled sz (25 / 1000));
                        \<comment> \<open>Center point between coins\<close>
                        center_x = sz div 2;
                        center_y = sz div 2;
                        \<comment> \<open>Arrow dimensions\<close>
                        arrow_len = scaled sz (10 / 100);
                        arrow_head = max 3 (scaled sz (4 / 100));
                        \<comment> \<open>Right arrow (top)\<close>
                        arrow_y1 = center_y - scaled sz (5 / 100);
                        img = draw (Line (center_x - arrow_len, arrow_y1)
                                (center_x + arrow_len, arrow_y1) arrow_color arrow_thickness) img;
                        img = draw (Polygon
                                [(center_x + arrow_len, arrow_y1),
                                 (center_x + arrow_len - arrow_head, arrow_y1 - arrow_head),
                                 (center_x + arrow_len - arrow_head, arrow_y1 + arrow_head)]
                                arrow_color) img;
                        \<comment> \<open>Left arrow (bottom)\<close>
                        arrow_y2 = center_y + scaled sz (5 / 100);
                        img = draw (Line (center_x + arrow_len, arrow_y2)
                                (center_x - arrow_len, arrow_y2) arrow_color arrow_thickness) img;
                        img = draw (Polygon
                                [(center_x - arrow_len, arrow_y2),
                                 (center_x - arrow_len + arrow_head, arrow_y2 - arrow_head),
                                 (center_x - arrow_len + arrow_head, arrow_y2 + arrow_head)]
                                arrow_color) img
                    in img)
                 else img)
      in Inr img))"

section \<open>Reading a drawn canvas\<close>


fun is_glyph :: "draw_op \<Rightarrow> bool" where
  "is_glyph (Text p s c f) = True"
| "is_glyph d = False"


definition glyphs :: "image \<Rightarrow> draw_op list" where
  "glyphs img = filter is_glyph (img_ops img)"

definition sample_env :: env where
  \<comment> \<open>a machine on which every font file loads, every text measures 20 by 30 pixels and
      every file can be written\<close>
  "sample_env = \<lparr>font_file_loads = (\<lambda>path sz. True),
                  text_bbox = (\<lambda>f s. Some (1, 5, 21, 35)),
                  can_write = (\<lambda>name. True)\<rparr>"

definition bare_env :: env where
  \<comment> \<open>a machine without the font files\<close>
  "bare_env = \<lparr>font_file_loads = (\<lambda>path sz. False),
                text_bbox = (\<lambda>f s. Some (1, 5, 21, 35)),
                can_write = (\<lambda>name. True)\<rparr>"

definition partial_env :: env where
  \<comment> \<open>a machine on which only the fonts of size 56 fail to load\<close>
  "partial_env = \<lparr>font_file_loads = (\<lambda>path sz. sz \<noteq> 56),
                   text_bbox = (\<lambda>f s. Some (1, 5, 21, 35)),
                   can_write = (\<lambda>name. True)\<rparr>"

fun fonts_of_ops :: "draw_op list \<Rightarrow> font list" where
  "fonts_of_ops [] = []"
| "fonts_of_ops (Text p s c f # ds) = f # fonts_of_ops ds"
| "fonts_of_ops (d # ds) = fonts_of_ops ds"

definition fonts_used :: "image \<Rightarrow> font list" where
  \<comment> \<open>the fonts of the texts drawn on a canvas, in drawing order\<close>
  "fonts_used img = fonts_of_ops (img_ops img)"

section \<open>Rounding\<close>

lemma rne_near: "\<bar>of_int (rne q) - q\<bar> \<le> 1/2"
  unfolding rne_def Let_def by (auto simp: abs_if) linarith+

lemma rne_of_int: "rne (of_int n) = n"
  by (simp add: rne_def)

lemma rne_mono: "q1 \<le> q2 \<Longrightarrow> rne q1 \<le> rne q2"
proof (rule ccontr)
  assume le: "q1 \<le> q2" and "\<not> rne q1 \<le> rne q2"
  then have "rne q2 + 1 \<le> rne q1" by simp
  then have "(of_int (rne q2) :: rat) + 1 \<le> of_int (rne q1)"
    by (metis of_int_1 of_int_add of_int_le_iff)
  moreover have "\<bar>of_int (rne q1) - q1\<bar> \<le> 1/2" "\<bar>of_int (rne q2) - q2\<bar> \<le> 1/2"
    by (rule rne_near)+
  ultimately have "q1 = q2" using le by linarith
  with \<open>\<not> rne q1 \<le> rne q2\<close> show False by simp
qed

lemma rne_minus: "rne (- q) = - rne q"
proof (cases "q = of_int \<lfloor>q\<rfloor>")
  case True
  then obtain n where "q = of_int n" ..
  then have "- q = of_int (- n)" by simp
  then show ?thesis using \<open>q = of_int n\<close> by (simp only: rne_of_int)
next
  case False
  then have c: "\<lceil>q\<rceil> = \<lfloor>q\<rfloor> + 1"
    by (metis ceiling_altdef)
  have f: "\<lfloor>- q\<rfloor> = - \<lfloor>q\<rfloor> - 1"
    using c by (simp add: floor_minus)
  show ?thesis
    unfolding rne_def Let_def f by (auto simp: field_simps)
qed

lemma ilog2_bounds:
  assumes "x \<noteq> 0"
  shows "2 powi (ilog2 x) \<le> \<bar>x\<bar>" and "\<bar>x\<bar> < 2 powi (ilog2 x + 1)"
proof -
  obtain p q where pq: "quotient_of \<bar>x\<bar> = (p, q)" by force
  have qpos: "0 < q" using pq by (rule quotient_of_denom_pos)
  have xe: "\<bar>x\<bar> = of_int p / of_int q" using pq by (rule quotient_of_div)
  have ppos: "0 < p"
  proof -
    have "0 < \<bar>x\<bar>" using assms by simp
    then show ?thesis using qpos unfolding xe by (simp add: zero_less_divide_iff)
  qed
  define k where "k = bitlen p - bitlen q"
  have bp: "2 ^ nat (bitlen p - 1) \<le> p" "p < 2 ^ nat (bitlen p)"
    using bitlen_bounds[OF ppos] by auto
  have bq: "2 ^ nat (bitlen q - 1) \<le> q" "q < 2 ^ nat (bitlen q)"
    using bitlen_bounds[OF qpos] by auto
  have b1: "1 \<le> bitlen p" "1 \<le> bitlen q"
    using ppos qpos bitlen_eq_zero_iff[of p] bitlen_eq_zero_iff[of q] bitlen_nonneg[of p] bitlen_nonneg[of q]
    by linarith+
  have cast: "(2::rat) powi (bitlen n - 1) \<le> of_int n \<and> of_int n < (2::rat) powi (bitlen n)"
    if "0 < n" for n
  proof -
    have n1: "1 \<le> bitlen n"
      using that bitlen_eq_zero_iff[of n] bitlen_nonneg[of n] by linarith
    have "(of_int (2 ^ nat (bitlen n - 1)) :: rat) \<le> of_int n"
      using bitlen_bounds[OF that] by (simp only: of_int_le_iff)
    moreover have "(of_int n :: rat) < of_int (2 ^ nat (bitlen n))"
      using bitlen_bounds[OF that] by (simp only: of_int_less_iff)
    ultimately show ?thesis using n1 by (simp add: power_int_nonneg_exp)
  qed
  have lo: "(2::rat) powi (k - 1) \<le> \<bar>x\<bar>"
  proof -
    have "(2::rat) powi (k - 1) * of_int q \<le> 2 powi (k - 1) * 2 powi (bitlen q)"
      using cast[OF qpos] by (intro mult_left_mono) auto
    also have "\<dots> = 2 powi (bitlen p - 1)"
      by (simp add: k_def flip: power_int_add)
    also have "\<dots> \<le> of_int p"
      using cast[OF ppos] by simp
    finally show ?thesis using qpos unfolding xe by (simp add: pos_le_divide_eq)
  qed
  have hi: "\<bar>x\<bar> < (2::rat) powi (k + 1)"
  proof -
    have "of_int p < (2::rat) powi (bitlen p)"
      using cast[OF ppos] by simp
    also have "\<dots> = 2 powi (k + 1) * 2 powi (bitlen q - 1)"
      by (simp add: k_def flip: power_int_add)
    also have "\<dots> \<le> 2 powi (k + 1) * of_int q"
      using cast[OF qpos] by (intro mult_left_mono) auto
    finally show ?thesis using qpos unfolding xe by (simp add: pos_divide_less_eq)
  qed
  have e: "ilog2 x = (if 2 powi k \<le> \<bar>x\<bar> then k else k - 1)"
    by (simp add: ilog2_def pq k_def Let_def)
  show "2 powi (ilog2 x) \<le> \<bar>x\<bar>" using lo by (simp add: e)
  show "\<bar>x\<bar> < 2 powi (ilog2 x + 1)" using hi by (auto simp: e)
qed

lemma ilog2_minus: "ilog2 (- x) = ilog2 x"
  by (simp add: ilog2_def)

lemma ulp_minus: "ulp (- x) = ulp x"
  by (simp add: ulp_def ilog2_minus)

lemma fl_minus: "fl (- x) = - fl x"
  by (simp add: fl_def ulp_minus rne_minus)

lemma ulp_pos: "0 < ulp x"
  by (simp add: ulp_def)

lemma fl_zero: "fl 0 = 0"
  by (simp add: fl_def rne_def)


lemma two_powi_less_cancel:
  assumes "(2::rat) powi m < 2 powi n"
  shows "m < n"
proof (rule ccontr)
  assume "\<not> m < n"
  then have "(2::rat) powi n \<le> 2 powi m" by (intro power_int_increasing) auto
  with assms show False by simp
qed

lemma ilog2_mono:
  assumes "x \<noteq> 0" "\<bar>x\<bar> \<le> \<bar>y\<bar>"
  shows "ilog2 x \<le> ilog2 y"
proof -
  have "y \<noteq> 0" using assms by auto
  have "(2::rat) powi (ilog2 x) \<le> \<bar>x\<bar>" using assms(1) by (rule ilog2_bounds)
  also note assms(2)
  also have "\<bar>y\<bar> < 2 powi (ilog2 y + 1)" using \<open>y \<noteq> 0\<close> by (rule ilog2_bounds)
  finally have "ilog2 x < ilog2 y + 1"
    by (rule two_powi_less_cancel)
  then show ?thesis by simp
qed

lemma ulp_eq: "ulp x = 2 powi (max (ilog2 x) (- 1022)) / 2 ^ 52"
  by (simp add: ulp_def power_int_diff)

lemma fl_upper:
  assumes "0 < x"
  shows "fl x \<le> 2 powi (max (ilog2 x) (- 1022) + 1)"
proof -
  let ?E = "max (ilog2 x) (- 1022)"
  have "x < 2 powi (ilog2 x + 1)" using ilog2_bounds(2)[of x] assms by simp
  also have "\<dots> \<le> 2 powi (?E + 1)" by (rule power_int_increasing) auto
  finally have "x / ulp x \<le> of_int (2 ^ 53)"
    by (simp add: ulp_eq power_int_add field_simps)
  then have "rne (x / ulp x) \<le> 2 ^ 53"
    using rne_mono rne_of_int by metis
  then have "(of_int (rne (x / ulp x)) :: rat) \<le> of_int (2 ^ 53)"
    by (simp only: of_int_le_iff)
  then have "fl x \<le> of_int (2 ^ 53) * ulp x"
    unfolding fl_def using ulp_pos[of x] by (intro mult_right_mono) auto
  also have "\<dots> = 2 powi (?E + 1)"
    by (simp add: ulp_eq power_int_add)
  finally show ?thesis .
qed

lemma fl_lower:
  assumes "0 < x" "- 1022 \<le> ilog2 x"
  shows "2 powi (ilog2 x) \<le> fl x"
proof -
  have E: "max (ilog2 x) (- 1022) = ilog2 x" using assms(2) by simp
  have "2 powi (ilog2 x) \<le> x" using ilog2_bounds(1)[of x] assms by simp
  then have "of_int (2 ^ 52) \<le> x / ulp x"
    by (simp add: ulp_eq E field_simps)
  then have "2 ^ 52 \<le> rne (x / ulp x)"
    using rne_mono rne_of_int by metis
  then have "(of_int (2 ^ 52) :: rat) \<le> of_int (rne (x / ulp x))"
    by (simp only: of_int_le_iff)
  then have "of_int (2 ^ 52) * ulp x \<le> fl x"
    unfolding fl_def using ulp_pos[of x] by (intro mult_right_mono) auto
  moreover have "of_int (2 ^ 52) * ulp x = 2 powi (ilog2 x)"
    by (simp add: ulp_eq E)
  ultimately show ?thesis by simp
qed

lemma fl_nonneg:
  assumes "0 \<le> x"
  shows "0 \<le> fl x"
proof -
  have "0 \<le> x / ulp x" using assms ulp_pos[of x] by simp
  then have "rne (of_int 0) \<le> rne (x / ulp x)" by (intro rne_mono) simp
  then have "0 \<le> rne (x / ulp x)" by (simp only: rne_of_int)
  then show ?thesis unfolding fl_def using ulp_pos[of x] by simp
qed

lemma fl_mono_pos:
  assumes "0 < x" "x \<le> y"
  shows "fl x \<le> fl y"
proof -
  let ?Ex = "max (ilog2 x) (- 1022)" and ?Ey = "max (ilog2 y) (- 1022)"
  have ypos: "0 < y" using assms by simp
  have "ilog2 x \<le> ilog2 y" using assms by (intro ilog2_mono) auto
  then have "?Ex = ?Ey \<or> (?Ex < ilog2 y \<and> - 1022 \<le> ilog2 y)" by auto
  then show ?thesis
  proof
    assume "?Ex = ?Ey"
    then have u: "ulp x = ulp y" by (simp add: ulp_def)
    have "x / ulp y \<le> y / ulp y"
      using assms(2) ulp_pos[of y] by (simp add: divide_right_mono)
    then have "rne (x / ulp y) \<le> rne (y / ulp y)" by (rule rne_mono)
    then show ?thesis
      unfolding fl_def u using ulp_pos[of y] by (intro mult_right_mono) auto
  next
    assume a: "?Ex < ilog2 y \<and> - 1022 \<le> ilog2 y"
    have "fl x \<le> 2 powi (?Ex + 1)" using assms(1) by (rule fl_upper)
    also have "\<dots> \<le> 2 powi (ilog2 y)"
      using a by (intro power_int_increasing) auto
    also have "\<dots> \<le> fl y" using ypos a by (intro fl_lower) auto
    finally show ?thesis .
  qed
qed

lemma fl_mono:
  assumes "x \<le> y"
  shows "fl x \<le> fl y"
proof -
  consider "0 < x" | "x \<le> 0" "0 \<le> y" | "y < 0" by linarith
  then show ?thesis
  proof cases
    case 1
    then show ?thesis using assms by (rule fl_mono_pos)
  next
    case 2
    have "0 \<le> fl (- x)" using 2(1) by (intro fl_nonneg) simp
    then have "fl x \<le> 0" by (simp add: fl_minus)
    also have "0 \<le> fl y" using 2(2) by (rule fl_nonneg)
    finally show ?thesis .
  next
    case 3
    have "fl (- y) \<le> fl (- x)" using 3 assms by (intro fl_mono_pos) auto
    then show ?thesis by (simp add: fl_minus)
  qed
qed

lemma fl_exact:
  assumes "x / ulp x = of_int m"
  shows "fl x = x"
proof -
  have "fl x = of_int m * ulp x" by (simp add: fl_def assms rne_of_int)
  also have "\<dots> = x" using ulp_pos[of x] by (simp flip: assms)
  finally show ?thesis .
qed

lemma fl_of_int:
  assumes "\<bar>n\<bar> < 2 ^ 53"
  shows "fl (of_int n) = of_int n"
proof (cases "n = 0")
  case True
  then show ?thesis by (simp add: fl_zero)
next
  case False
  let ?x = "of_int n :: rat"
  have x0: "?x \<noteq> 0" using False by simp
  have "1 \<le> \<bar>n\<bar>" using False by simp
  then have "(1::rat) \<le> \<bar>?x\<bar>" by (metis of_int_1 of_int_abs of_int_le_iff)
  then have "(2::rat) powi 0 \<le> \<bar>?x\<bar>" by simp
  also have "\<bar>?x\<bar> < 2 powi (ilog2 ?x + 1)" using x0 by (rule ilog2_bounds)
  finally have "0 < ilog2 ?x + 1" by (rule two_powi_less_cancel)
  then have e0: "0 \<le> ilog2 ?x" by simp
  have "(2::rat) powi (ilog2 ?x) \<le> \<bar>?x\<bar>" using x0 by (rule ilog2_bounds)
  also have "\<bar>?x\<bar> < of_int (2 ^ 53)" using assms by (metis of_int_abs of_int_less_iff)
  also have "(of_int (2 ^ 53) :: rat) = 2 powi 53" by simp
  finally have e53: "ilog2 ?x < 53" by (rule two_powi_less_cancel)
  define j where "j = nat (52 - ilog2 ?x)"
  have "ulp ?x = 2 powi (- int j)"
    using e0 e53 by (simp add: ulp_def j_def)
  then have "ulp ?x = 1 / 2 ^ j"
    by (simp add: power_int_minus_divide)
  then have "?x / ulp ?x = of_int (n * 2 ^ j)"
    by simp
  then show ?thesis by (rule fl_exact)
qed
section \<open>The gradient\<close>

lemma py_int_of_int: "py_int (of_int n) = n"
  by (simp add: py_int_def)

lemma py_int_mono:
  assumes "a \<le> b"
  shows "py_int a \<le> py_int b"
proof -
  consider "0 \<le> a" | "a < 0" "0 \<le> b" | "b < 0" by linarith
  then show ?thesis
  proof cases
    case 1
    then show ?thesis using assms by (simp add: py_int_def floor_mono)
  next
    case 2
    have "\<lceil>a\<rceil> \<le> 0" using 2(1) by (simp add: ceiling_le_iff)
    moreover have "0 \<le> \<lfloor>b\<rfloor>" using 2(2) by simp
    ultimately have "\<lceil>a\<rceil> \<le> \<lfloor>b\<rfloor>" by (rule order_trans)
    then show ?thesis using 2 by (simp add: py_int_def)
  next
    case 3
    then show ?thesis using assms by (simp add: py_int_def ceiling_mono)
  qed
qed

lemma draw_sel:
  "img_ops (draw d img) = img_ops img @ [d]"
  "img_width (draw d img) = img_width img"
  "img_height (draw d img) = img_height img"
  "img_mode (draw d img) = img_mode img"
  "img_background (draw d img) = img_background img"
  by (simp_all add: draw_def)

lemma fold_draw_ops: "img_ops (fold (\<lambda>y. draw (f y)) ys img) = img_ops img @ map f ys"
  by (induction ys arbitrary: img) (simp_all add: draw_sel)

lemma fold_draw_dims:
  "img_width (fold (\<lambda>y. draw (f y)) ys img) = img_width img \<and>
   img_height (fold (\<lambda>y. draw (f y)) ys img) = img_height img \<and>
   img_mode (fold (\<lambda>y. draw (f y)) ys img) = img_mode img \<and>
   img_background (fold (\<lambda>y. draw (f y)) ys img) = img_background img"
  by (induction ys arbitrary: img) (simp_all add: draw_sel)

lemma Image_new_Inr:
  "Image_new m (w, h) c = Inr img \<longleftrightarrow>
     0 \<le> w \<and> 0 \<le> h \<and> w < 2 ^ 31 \<and> h < 2 ^ 31 \<and> img = Image m w h c []"
  by (auto simp: Image_new_def)

lemma create_gradient_background_Inr:
  assumes "create_gradient_background (w, h) sc ec = Inr img"
  shows "0 \<le> w \<and> 0 \<le> h \<and> w < 2 ^ 31 \<and> h < 2 ^ 31 \<and>
         (\<exists>s e. hex_to_rgb sc = Inr s \<and> hex_to_rgb ec = Inr e \<and>
            img = Image ''RGB'' w h (RGB 0 0 0) (map (gradient_row w h s e) [0..h - 1]))"
proof -
  obtain i0 where i0: "Image_new ''RGB'' (w, h) (RGB 0 0 0) = Inr i0"
    using assms by (auto simp: create_gradient_background_def split: sum.splits)
  obtain s where s: "hex_to_rgb sc = Inr s"
    using assms i0 by (auto simp: create_gradient_background_def split: sum.splits)
  obtain e where e: "hex_to_rgb ec = Inr e"
    using assms i0 s by (auto simp: create_gradient_background_def split: sum.splits)
  have img: "img = fold (\<lambda>y. draw (gradient_row w h s e y)) [0..h - 1] i0"
    using assms i0 s e by (simp add: create_gradient_background_def)
  have i0': "0 \<le> w \<and> 0 \<le> h \<and> w < 2 ^ 31 \<and> h < 2 ^ 31 \<and> i0 = Image ''RGB'' w h (RGB 0 0 0) []"
    using i0 by (simp only: Image_new_Inr)
  have "img = Image ''RGB'' w h (RGB 0 0 0) (map (gradient_row w h s e) [0..h - 1])"
    by (rule image.expand) (simp add: img fold_draw_ops fold_draw_dims i0')
  then show ?thesis using i0' s e by blast
qed

lemma raw_ratio_mono:
  assumes "(of_int y1 :: rat) / of_int h1 \<le> of_int y2 / of_int h2"
  shows "raw_ratio y1 h1 \<le> raw_ratio y2 h2"
proof -
  have c: "(0::rat) < fl (13 / 10)" by code_simp
  have "int_truediv y1 h1 \<le> int_truediv y2 h2"
    unfolding int_truediv_def using assms by (rule fl_mono)
  then have "fadd (int_truediv y1 h1) (fl (3 / 10)) \<le> fadd (int_truediv y2 h2) (fl (3 / 10))"
    unfolding fadd_def by (intro fl_mono) simp
  then show ?thesis
    unfolding raw_ratio_def fdiv_def using c by (intro fl_mono divide_right_mono) simp_all
qed

lemma raw_ratio_low: "raw_ratio 0 1 = 8314337773607069 / 36028797018963968"
  by code_simp

lemma raw_ratio_high: "raw_ratio (2 ^ 31 - 2) (2 ^ 31 - 1) = 2251799812878651 / 2251799813685248"
  by code_simp

lemma raw_ratio_bounds:
  assumes "0 \<le> y" "y < h" "h < 2 ^ 31"
  shows "raw_ratio 0 1 \<le> raw_ratio y h" and "raw_ratio y h \<le> raw_ratio (2 ^ 31 - 2) (2 ^ 31 - 1)"
proof -
  have hpos: "(0::rat) < of_int h" using assms by simp
  have "(0::rat) \<le> of_int y / of_int h" using assms by simp
  then have "(of_int 0 :: rat) / of_int 1 \<le> of_int y / of_int h" by simp
  then show "raw_ratio 0 1 \<le> raw_ratio y h" by (rule raw_ratio_mono)
  have "y * (2 ^ 31 - 1) \<le> (2 ^ 31 - 2) * h"
  proof -
    have "y \<le> h - 1" "h \<le> 2 ^ 31 - 1" using assms by simp_all
    then have "y * (2 ^ 31 - 1) \<le> (h - 1) * (2 ^ 31 - 1)" by (intro mult_right_mono) simp_all
    also have "\<dots> = (2 ^ 31 - 2) * h - (2 ^ 31 - 1 - h)" by (simp add: algebra_simps)
    also have "\<dots> \<le> (2 ^ 31 - 2) * h" using \<open>h \<le> 2 ^ 31 - 1\<close> by simp
    finally show ?thesis .
  qed
  then have "(of_int (y * (2 ^ 31 - 1)) :: rat) \<le> of_int ((2 ^ 31 - 2) * h)"
    by (simp only: of_int_le_iff)
  then have "(of_int y :: rat) / of_int h \<le> of_int (2 ^ 31 - 2) / of_int (2 ^ 31 - 1)"
    using hpos by (simp add: field_simps)
  then show "raw_ratio y h \<le> raw_ratio (2 ^ 31 - 2) (2 ^ 31 - 1)" by (rule raw_ratio_mono)
qed

lemma clamp01_id: "0 \<le> r \<Longrightarrow> r \<le> 1 \<Longrightarrow> clamp01 r = r"
  by (simp add: clamp01_def py_min_def py_max_def)

lemma blend_eq:
  assumes "\<bar>s\<bar> < 2 ^ 53" "\<bar>e - s\<bar> < 2 ^ 53"
  shows "blend s e r = py_int (fl (of_int s + fl (of_int (e - s) * r)))"
  using assms
  by (simp only: blend_def int_plus_float_def int_times_float_def fadd_def fmul_def py_float_def
      fl_of_int)

lemma blend_mono_up:
  assumes "\<bar>s\<bar> < 2 ^ 53" "\<bar>e - s\<bar> < 2 ^ 53" "s \<le> e" "r1 \<le> r2"
  shows "blend s e r1 \<le> blend s e r2"
proof -
  have "(of_int (e - s) :: rat) * r1 \<le> of_int (e - s) * r2"
    using assms(3,4) by (intro mult_left_mono) simp_all
  then have "fl (of_int (e - s) * r1) \<le> fl (of_int (e - s) * r2)" by (rule fl_mono)
  then have "fl (of_int s + fl (of_int (e - s) * r1)) \<le> fl (of_int s + fl (of_int (e - s) * r2))"
    by (intro fl_mono) simp
  then show ?thesis
    unfolding blend_eq[OF assms(1,2)] by (rule py_int_mono)
qed

lemma blend_mono_down:
  assumes "\<bar>s\<bar> < 2 ^ 53" "\<bar>e - s\<bar> < 2 ^ 53" "e \<le> s" "r1 \<le> r2"
  shows "blend s e r2 \<le> blend s e r1"
proof -
  have "(of_int (e - s) :: rat) * r2 \<le> of_int (e - s) * r1"
    using assms(3,4) by (intro mult_left_mono_neg) simp_all
  then have "fl (of_int (e - s) * r2) \<le> fl (of_int (e - s) * r1)" by (rule fl_mono)
  then have "fl (of_int s + fl (of_int (e - s) * r2)) \<le> fl (of_int s + fl (of_int (e - s) * r1))"
    by (intro fl_mono) simp
  then show ?thesis
    unfolding blend_eq[OF assms(1,2)] by (rule py_int_mono)
qed

lemma blend_at_0:
  assumes "\<bar>s\<bar> < 2 ^ 53" "\<bar>e - s\<bar> < 2 ^ 53"
  shows "blend s e 0 = s"
  unfolding blend_eq[OF assms] using assms(1) by (simp add: fl_zero fl_of_int py_int_of_int)

lemma blend_at_1:
  assumes "\<bar>s\<bar> < 2 ^ 53" "\<bar>e - s\<bar> < 2 ^ 53" "\<bar>e\<bar> < 2 ^ 53"
  shows "blend s e 1 = e"
proof -
  have "fl (of_int (e - s) * 1) = of_int (e - s)" using assms(2) by (simp only: mult_1_right fl_of_int)
  moreover have "(of_int s :: rat) + of_int (e - s) = of_int e" by simp
  ultimately show ?thesis
    unfolding blend_eq[OF assms(1,2)] using assms(3) by (simp only: fl_of_int py_int_of_int)
qed

lemma blend_between:
  assumes "\<bar>s\<bar> < 2 ^ 53" "\<bar>e - s\<bar> < 2 ^ 53" "\<bar>e\<bar> < 2 ^ 53" "0 \<le> r" "r \<le> 1"
  shows "min s e \<le> blend s e r \<and> blend s e r \<le> max s e"
proof (cases "s \<le> e")
  case True
  have "blend s e 0 \<le> blend s e r" "blend s e r \<le> blend s e 1"
    using assms True by (auto intro: blend_mono_up)
  then show ?thesis using True assms by (simp add: blend_at_0 blend_at_1)
next
  case False
  then have es: "e \<le> s" by simp
  have "blend s e r \<le> blend s e 0" "blend s e 1 \<le> blend s e r"
    using assms es by (auto intro: blend_mono_down)
  then show ?thesis using es assms by (simp add: blend_at_0 blend_at_1)
qed

lemma hex_digit_range: "hex_digit c = Some d \<Longrightarrow> 0 \<le> d \<and> d \<le> 15"
  by (auto simp: hex_digit_def Let_def split: if_splits)

lemma digits16_bound:
  "digits16 p acc v = Some n \<Longrightarrow> 0 \<le> acc \<Longrightarrow> 0 \<le> n \<and> n < (acc + 1) * 16 ^ length v"
proof (induction v arbitrary: p acc)
  case Nil
  then show ?case by (simp split: if_splits)
next
  case (Cons c cs)
  show ?case
  proof (cases "c = CHR ''_''")
    case True
    then have "digits16 False acc cs = Some n"
      using Cons.prems(1) by (simp split: if_splits)
    then have "0 \<le> n \<and> n < (acc + 1) * 16 ^ length cs"
      using Cons.prems(2) by (rule Cons.IH)
    moreover have "(acc + 1) * 16 ^ length cs \<le> (acc + 1) * 16 ^ length (c # cs)"
      using Cons.prems(2) by simp
    ultimately show ?thesis by linarith
  next
    case False
    then obtain d where d: "hex_digit c = Some d" and r: "digits16 True (16 * acc + d) cs = Some n"
      using Cons.prems(1) by (auto split: option.splits)
    have dr: "0 \<le> d" "d \<le> 15" using hex_digit_range[OF d] by simp_all
    have "0 \<le> 16 * acc + d" using dr Cons.prems(2) by simp
    with r have ih: "0 \<le> n \<and> n < (16 * acc + d + 1) * 16 ^ length cs" by (rule Cons.IH)
    have "(16 * acc + d + 1) * 16 ^ length cs \<le> (16 * acc + 16) * (16 ^ length cs :: int)"
      using dr by (intro mult_right_mono) simp_all
    also have "\<dots> = (acc + 1) * 16 ^ length (c # cs)" by (simp add: algebra_simps)
    finally show ?thesis using ih by linarith
  qed
qed

lemma split_sign_length:
  assumes "split_sign t = (neg, u)"
  shows "length u \<le> length t \<and> (neg \<longrightarrow> length u < length t)"
  using assms by (cases t) (auto simp: split_sign_def split: if_splits)

lemma py_int16_bound:
  assumes "py_int16 s = Inr n" "length s \<le> 2"
  shows "- 15 \<le> n \<and> n \<le> 255"
proof -
  obtain neg u where nu: "split_sign (strip_space s) = (neg, u)" by force
  define v where "v = skip_prefix u"
  obtain m where m: "digits16 False 0 v = Some m" and n: "n = (if neg then - m else m)"
    using assms(1) by (auto simp: py_int16_def nu v_def split: option.splits)
  have mb: "0 \<le> m" "m < 16 ^ length v"
    using digits16_bound[OF m] by simp_all
  have "length (dropWhile is_space (rev (dropWhile is_space s))) \<le> length (dropWhile is_space s)"
    using length_dropWhile_le[of is_space "rev (dropWhile is_space s)"] by simp
  then have lt: "length (strip_space s) \<le> 2"
    using assms(2) length_dropWhile_le[of is_space s] by (simp add: strip_space_def)
  have lu: "length u \<le> (if neg then 1 else 2)"
    using split_sign_length[OF nu] lt by (cases neg) auto
  have lv: "length v \<le> length u"
    by (auto simp: v_def skip_prefix_def split: list.splits)
  show ?thesis
  proof (cases neg)
    case True
    then have "length v \<le> 1" using lu lv by simp
    then have "(16::int) ^ length v \<le> 16 ^ 1" by (intro power_increasing) simp_all
    then show ?thesis using mb n True by simp
  next
    case False
    then have "length v \<le> 2" using lu lv by simp
    then have "(16::int) ^ length v \<le> 16 ^ 2" by (intro power_increasing) simp_all
    then show ?thesis using mb n False by simp
  qed
qed

lemma hex_to_rgb_range:
  assumes "hex_to_rgb c = Inr (r, g, b)"
  shows "(- 15 \<le> r \<and> r \<le> 255) \<and> (- 15 \<le> g \<and> g \<le> 255) \<and> (- 15 \<le> b \<and> b \<le> 255)"
proof -
  let ?h = "dropWhile (\<lambda>c. c = CHR ''#'') c"
  have "py_int16 (slice2 ?h 0) = Inr r" "py_int16 (slice2 ?h 2) = Inr g" "py_int16 (slice2 ?h 4) = Inr b"
    using assms by (auto simp: hex_to_rgb_def Let_def split: sum.splits)
  moreover have "length (slice2 ?h i) \<le> 2" for i by (simp add: slice2_def)
  ultimately show ?thesis using py_int16_bound by blast
qed

lemma gradient_row_eq:
  "gradient_row w h (sr, sg, sb) (er, eg, eb) y =
     Line (0, y) (w, y)
       (RGB (blend sr er (clamp01 (raw_ratio y h))) (blend sg eg (clamp01 (raw_ratio y h)))
            (blend sb eb (clamp01 (raw_ratio y h)))) 0"
  by (simp add: gradient_row_def Let_def)

lemma create_gradient_background_total:
  assumes "0 \<le> w" "w < 2 ^ 31" "0 \<le> h" "h < 2 ^ 31"
    and "hex_to_rgb sc = Inr s" "hex_to_rgb ec = Inr e"
  shows "create_gradient_background (w, h) sc ec =
           Inr (Image ''RGB'' w h (RGB 0 0 0) (map (gradient_row w h s e) [0..h - 1]))"
proof -
  have i0: "Image_new ''RGB'' (w, h) (RGB 0 0 0) = Inr (Image ''RGB'' w h (RGB 0 0 0) [])"
    using assms(1-4) by (simp add: Image_new_def)
  have "fold (\<lambda>y. draw (gradient_row w h s e y)) [0..h - 1] (Image ''RGB'' w h (RGB 0 0 0) [])
          = Image ''RGB'' w h (RGB 0 0 0) (map (gradient_row w h s e) [0..h - 1])"
    by (rule image.expand) (simp add: fold_draw_ops fold_draw_dims)
  then show ?thesis
    using i0 assms(5,6) by (simp add: create_gradient_background_def)
qed

lemma row_rgb_rows:
  assumes "0 \<le> y" "y < h"
  shows "row_rgb (Image m w h c (map (gradient_row w h (sr, sg, sb) (er, eg, eb)) [0..h - 1])) y =
           Some (blend sr er (clamp01 (raw_ratio y h)), blend sg eg (clamp01 (raw_ratio y h)),
                 blend sb eb (clamp01 (raw_ratio y h)))"
proof -
  have n: "nat y < length [0..h - 1]" using assms by simp
  have "[0..h - 1] ! nat y = y" using assms by (simp add: nth_upto)
  then have "map (gradient_row w h (sr, sg, sb) (er, eg, eb)) [0..h - 1] ! nat y
               = gradient_row w h (sr, sg, sb) (er, eg, eb) y"
    using n by (simp only: nth_map)
  then show ?thesis
    using n assms(1) by (simp add: row_rgb_def gradient_row_eq)
qed

lemma ratio_unit:
  assumes "0 \<le> y" "y < h" "h < 2 ^ 31"
  shows "0 < raw_ratio y h" "raw_ratio y h < 1"
proof -
  have "0 < raw_ratio 0 1" unfolding raw_ratio_low by simp
  also have "\<dots> \<le> raw_ratio y h" using assms by (rule raw_ratio_bounds)
  finally show "0 < raw_ratio y h" .
  have "raw_ratio y h \<le> raw_ratio (2 ^ 31 - 2) (2 ^ 31 - 1)" using assms by (rule raw_ratio_bounds)
  also have "\<dots> < 1" unfolding raw_ratio_high by simp
  finally show "raw_ratio y h < 1" .
qed

lemma raw_ratio_first_row: "raw_ratio 0 h = fdiv (fl (3 / 10)) (fl (13 / 10))"
proof -
  have "fl (fl (3 / 10)) = fl (3 / 10)" by code_simp
  then show ?thesis
    by (simp add: raw_ratio_def int_truediv_def fadd_def fl_zero)
qed

text \<open>
  Claim C10. Whenever \<open>create_gradient_background\<close> returns a canvas, the ratio
  \<open>(y / height + 0.3) / 1.3\<close> it computes for a row \<open>0 \<le> y < height\<close> lies strictly
  between 0 and 1, so \<open>min(1.0, max(0.0, ratio))\<close> returns it unchanged: neither clamp
  branch is taken. (A canvas exists only for a height below \<open>2 ^ 31\<close>; the quotient
  \<open>y / height\<close> is then at most \<open>1 - 2 ^ -31\<close> and cannot round up to 1.)
\<close>

theorem gradient_ratio_never_clamped:
  assumes "create_gradient_background (w, h) start_color end_color = Inr img"
    and "0 \<le> y" and "y < h"
  shows "0 < raw_ratio y h \<and> raw_ratio y h < 1 \<and> clamp01 (raw_ratio y h) = raw_ratio y h"
proof -
  have "h < 2 ^ 31"
    using create_gradient_background_Inr[OF assms(1)] by simp
  with assms(2,3) have "0 < raw_ratio y h" "raw_ratio y h < 1"
    by (rule ratio_unit)+
  then show ?thesis by (simp add: clamp01_id)
qed

lemma hex_blue_start: "hex_to_rgb PRIMARY_GRADIENT_START = Inr (37, 99, 235)"
  by code_simp

lemma hex_blue_end: "hex_to_rgb PRIMARY_GRADIENT_END = Inr (30, 64, 175)"
  by code_simp

theorem gradient_ratio_never_clamped_witness:
  "create_gradient_background (2, 3) PRIMARY_GRADIENT_START PRIMARY_GRADIENT_END =
     Inr (Image ''RGB'' 2 3 (RGB 0 0 0)
            (map (gradient_row 2 3 (37, 99, 235) (30, 64, 175)) [0..3 - 1])) \<and>
   0 < raw_ratio 2 3 \<and> raw_ratio 2 3 < 1 \<and> clamp01 (raw_ratio 2 3) = raw_ratio 2 3"
proof -
  have run: "create_gradient_background (2, 3) PRIMARY_GRADIENT_START PRIMARY_GRADIENT_END =
     Inr (Image ''RGB'' 2 3 (RGB 0 0 0)
            (map (gradient_row 2 3 (37, 99, 235) (30, 64, 175)) [0..3 - 1]))"
    by (rule create_gradient_background_total[OF _ _ _ _ hex_blue_start hex_blue_end]) simp_all
  have "0 < raw_ratio 2 3 \<and> raw_ratio 2 3 < 1 \<and> clamp01 (raw_ratio 2 3) = raw_ratio 2 3"
    by (rule gradient_ratio_never_clamped[OF run]) simp_all
  with run show ?thesis by (rule conjI)
qed

text \<open>
  Claim C5. For every pair of colours and every height, take two rows \<open>y1 \<le> y2\<close> of
  the canvas returned by \<open>create_gradient_background\<close>. In each of the three channels
  the value does not decrease from \<open>y1\<close> to \<open>y2\<close> when the end colour's channel is
  the larger one, does not increase when it is the smaller one, and in both rows it lies
  between the start colour's and the end colour's channel value.
\<close>

theorem gradient_monotone_and_bounded:
  assumes "create_gradient_background (w, h) start_color end_color = Inr img"
    and "hex_to_rgb start_color = Inr (sr, sg, sb)"
    and "hex_to_rgb end_color = Inr (er, eg, eb)"
    and "0 \<le> y1" and "y1 \<le> y2" and "y2 < h"
  shows "\<exists>r1 g1 b1 r2 g2 b2.
           row_rgb img y1 = Some (r1, g1, b1) \<and> row_rgb img y2 = Some (r2, g2, b2) \<and>
           toward_end sr er r1 r2 \<and> toward_end sg eg g1 g2 \<and> toward_end sb eb b1 b2"
proof -
  from create_gradient_background_Inr[OF assms(1)] assms(2,3)
  have h: "h < 2 ^ 31"
    and img: "img = Image ''RGB'' w h (RGB 0 0 0)
                (map (gradient_row w h (sr, sg, sb) (er, eg, eb)) [0..h - 1])"
    by auto
  have y1: "0 \<le> y1" "y1 < h" and y2: "0 \<le> y2" "y2 < h" using assms(4-6) by simp_all
  define q1 where "q1 = clamp01 (raw_ratio y1 h)"
  define q2 where "q2 = clamp01 (raw_ratio y2 h)"
  have u1: "0 < raw_ratio y1 h" "raw_ratio y1 h < 1" using y1 h by (rule ratio_unit)+
  have u2: "0 < raw_ratio y2 h" "raw_ratio y2 h < 1" using y2 h by (rule ratio_unit)+
  have "(of_int y1 :: rat) / of_int h \<le> of_int y2 / of_int h"
    using assms(5) y2 by (intro divide_right_mono) simp_all
  then have "raw_ratio y1 h \<le> raw_ratio y2 h" by (rule raw_ratio_mono)
  then have q: "q1 \<le> q2" "0 \<le> q1" "q1 \<le> 1" "0 \<le> q2" "q2 \<le> 1"
    using u1 u2 by (simp_all add: q1_def q2_def clamp01_id)
  have ch: "toward_end s e (blend s e q1) (blend s e q2)"
    if "- 15 \<le> s \<and> s \<le> 255" "- 15 \<le> e \<and> e \<le> 255" for s e
  proof -
    have b: "\<bar>s\<bar> < 2 ^ 53" "\<bar>e - s\<bar> < 2 ^ 53" "\<bar>e\<bar> < 2 ^ 53" using that by (auto simp: abs_if)
    have "s \<le> e \<longrightarrow> blend s e q1 \<le> blend s e q2"
      using blend_mono_up[OF b(1,2) _ q(1)] by simp
    moreover have "e \<le> s \<longrightarrow> blend s e q2 \<le> blend s e q1"
      using blend_mono_down[OF b(1,2) _ q(1)] by simp
    moreover note blend_between[OF b q(2,3)] blend_between[OF b q(4,5)]
    ultimately show ?thesis by (simp add: toward_end_def)
  qed
  have "row_rgb img y1 = Some (blend sr er q1, blend sg eg q1, blend sb eb q1)"
    unfolding img q1_def using y1 by (rule row_rgb_rows)
  moreover have "row_rgb img y2 = Some (blend sr er q2, blend sg eg q2, blend sb eb q2)"
    unfolding img q2_def using y2 by (rule row_rgb_rows)
  moreover have "toward_end sr er (blend sr er q1) (blend sr er q2)"
    "toward_end sg eg (blend sg eg q1) (blend sg eg q2)"
    "toward_end sb eb (blend sb eb q1) (blend sb eb q2)"
    using hex_to_rgb_range[OF assms(2)] hex_to_rgb_range[OF assms(3)] by (simp_all add: ch)
  ultimately show ?thesis by (intro exI conjI)
qed

subsection \<open>Rows of the gradient\<close>

lemma gradient_2x3:
  "create_gradient_background (2, 3) PRIMARY_GRADIENT_START PRIMARY_GRADIENT_END =
     Inr (Image ''RGB'' 2 3 (RGB 0 0 0)
            (map (gradient_row 2 3 (37, 99, 235) (30, 64, 175)) [0..3 - 1]))"
  by (rule create_gradient_background_total[OF _ _ _ _ hex_blue_start hex_blue_end]) simp_all

theorem gradient_monotone_and_bounded_witness:
  "\<exists>r1 g1 b1 r2 g2 b2.
     row_rgb (Image ''RGB'' 2 3 (RGB 0 0 0)
               (map (gradient_row 2 3 (37, 99, 235) (30, 64, 175)) [0..3 - 1])) 0
       = Some (r1, g1, b1) \<and>
     row_rgb (Image ''RGB'' 2 3 (RGB 0 0 0)
               (map (gradient_row 2 3 (37, 99, 235) (30, 64, 175)) [0..3 - 1])) 2
       = Some (r2, g2, b2) \<and>
     toward_end 37 30 r1 r2 \<and> toward_end 99 64 g1 g2 \<and> toward_end 235 175 b1 b2"
  by (rule gradient_monotone_and_bounded[OF gradient_2x3 hex_blue_start hex_blue_end]) simp_all

lemma row_of_gradient:
  assumes "0 \<le> w" "w < 2 ^ 31" "h < 2 ^ 31" "0 \<le> y" "y < h"
    and "hex_to_rgb sc = Inr (sr, sg, sb)" "hex_to_rgb ec = Inr (er, eg, eb)"
    and "raw_ratio y h = v" "clamp01 v = v"
    and "blend sr er v = r" "blend sg eg v = g" "blend sb eb v = b"
  shows "\<exists>img. create_gradient_background (w, h) sc ec = Inr img \<and> img_height img = h \<and>
           row_rgb img y = Some (r, g, b)"
proof -
  have h0: "0 \<le> h" using assms(4,5) by simp
  have "create_gradient_background (w, h) sc ec =
          Inr (Image ''RGB'' w h (RGB 0 0 0) (map (gradient_row w h (sr, sg, sb) (er, eg, eb)) [0..h - 1]))"
    using assms(1,2) h0 assms(3,6,7) by (rule create_gradient_background_total)
  moreover have "row_rgb (Image ''RGB'' w h (RGB 0 0 0)
                   (map (gradient_row w h (sr, sg, sb) (er, eg, eb)) [0..h - 1])) y = Some (r, g, b)"
    using row_rgb_rows[OF assms(4,5), of "''RGB''" w "RGB 0 0 0" sr sg sb er eg eb]
    by (simp add: assms(8-12))
  ultimately show ?thesis by simp
qed

lemma hex_green_start: "hex_to_rgb ''#10b981'' = Inr (16, 185, 129)"
  by code_simp

lemma hex_green_end: "hex_to_rgb ''#059669'' = Inr (5, 150, 105)"
  by code_simp

lemma hex_purple_start: "hex_to_rgb ''#8b5cf6'' = Inr (139, 92, 246)"
  by code_simp

lemma hex_purple_end: "hex_to_rgb ''#6d28d9'' = Inr (109, 40, 217)"
  by code_simp

lemma ratio_799: "raw_ratio 799 800 = 4499269243113409 / 4503599627370496"
  by code_simp

lemma ratio_279: "raw_ratio 279 280 = 1122806775230419 / 1125899906842624"
  by code_simp

lemma clamp_799: "clamp01 (4499269243113409 / 4503599627370496) = 4499269243113409 / 4503599627370496"
  by (simp add: clamp01_id)

lemma clamp_279: "clamp01 (1122806775230419 / 1125899906842624) = 1122806775230419 / 1125899906842624"
  by (simp add: clamp01_id)

lemma clamp_low: "clamp01 (8314337773607069 / 36028797018963968) = 8314337773607069 / 36028797018963968"
  by (simp add: clamp01_id)

lemma blue_last_row_800:
  "blend 37 30 (4499269243113409 / 4503599627370496) = 30"
  "blend 99 64 (4499269243113409 / 4503599627370496) = 64"
  "blend 235 175 (4499269243113409 / 4503599627370496) = 175"
  by code_simp+

lemma green_last_row_800:
  "blend 16 5 (4499269243113409 / 4503599627370496) = 5"
  "blend 185 150 (4499269243113409 / 4503599627370496) = 150"
  "blend 129 105 (4499269243113409 / 4503599627370496) = 105"
  by code_simp+

lemma purple_last_row_800:
  "blend 139 109 (4499269243113409 / 4503599627370496) = 109"
  "blend 92 40 (4499269243113409 / 4503599627370496) = 40"
  "blend 246 217 (4499269243113409 / 4503599627370496) = 217"
  by code_simp+

lemma blue_last_row_280:
  "blend 37 30 (1122806775230419 / 1125899906842624) = 30"
  "blend 99 64 (1122806775230419 / 1125899906842624) = 64"
  "blend 235 175 (1122806775230419 / 1125899906842624) = 175"
  by code_simp+

lemma blue_first_row:
  "blend 37 30 (8314337773607069 / 36028797018963968) = 35"
  "blend 99 64 (8314337773607069 / 36028797018963968) = 90"
  "blend 235 175 (8314337773607069 / 36028797018963968) = 221"
  by code_simp+

text \<open>
  The rows need not reach the end colour. On a canvas of height 1 with the default
  colours the only row has the ratio \<open>0.3 / 1.3\<close> and the colour (35, 90, 221), while
  the end colour is (30, 64, 175).
\<close>

theorem gradient_single_row_not_end_color:
  "create_gradient_background (1, 1) PRIMARY_GRADIENT_START PRIMARY_GRADIENT_END =
     Inr (Image ''RGB'' 1 1 (RGB 0 0 0) [Line (0, 0) (1, 0) (RGB 35 90 221) 0]) \<and>
   row_rgb (Image ''RGB'' 1 1 (RGB 0 0 0) [Line (0, 0) (1, 0) (RGB 35 90 221) 0]) 0
     = Some (35, 90, 221) \<and>
   hex_to_rgb PRIMARY_GRADIENT_END = Inr (30, 64, 175)"
proof -
  have row: "gradient_row 1 1 (37, 99, 235) (30, 64, 175) 0 = Line (0, 0) (1, 0) (RGB 35 90 221) 0"
    by (simp add: gradient_row_eq raw_ratio_low clamp_low blue_first_row)
  have "create_gradient_background (1, 1) PRIMARY_GRADIENT_START PRIMARY_GRADIENT_END =
          Inr (Image ''RGB'' 1 1 (RGB 0 0 0)
                 (map (gradient_row 1 1 (37, 99, 235) (30, 64, 175)) [0..1 - 1]))"
    by (rule create_gradient_background_total[OF _ _ _ _ hex_blue_start hex_blue_end]) simp_all
  then have "create_gradient_background (1, 1) PRIMARY_GRADIENT_START PRIMARY_GRADIENT_END =
     Inr (Image ''RGB'' 1 1 (RGB 0 0 0) [Line (0, 0) (1, 0) (RGB 35 90 221) 0])"
    by (simp add: row)
  moreover have "row_rgb (Image ''RGB'' 1 1 (RGB 0 0 0) [Line (0, 0) (1, 0) (RGB 35 90 221) 0]) 0
     = Some (35, 90, 221)"
    by (simp add: row_rgb_def)
  ultimately show ?thesis using hex_blue_end by simp
qed

text \<open>
  Claim C1, amended. Whenever \<open>create_gradient_background\<close> returns a canvas, every
  row \<open>0 \<le> y < height\<close> is a line over the whole width in the colour
  \<open>int(start + (end - start) * ratio)\<close> per channel, with the ratio
  \<open>(y / height + 0.3) / 1.3\<close> clamped to [0, 1]; for row 0 the clamped ratio is
  \<open>0.3 / 1.3\<close>, and the row has the colour blended at that ratio. The last row has the
  pure end colour for the four gradients the script draws: the default blue at 1280x800
  and at 440x280, the green and the purple at 1280x800. (For other heights and colours
  no row need have it: see the canvas of height 1 above.)
\<close>

theorem gradient_rows:
  assumes "create_gradient_background (w, h) start_color end_color = Inr img"
    and "hex_to_rgb start_color = Inr (sr, sg, sb)"
    and "hex_to_rgb end_color = Inr (er, eg, eb)"
    and "0 \<le> y" and "y < h"
  shows "row_rgb img y =
           Some (blend sr er (clamp01 (raw_ratio y h)), blend sg eg (clamp01 (raw_ratio y h)),
                 blend sb eb (clamp01 (raw_ratio y h))) \<and>
         clamp01 (raw_ratio 0 h) = fdiv (fl (3 / 10)) (fl (13 / 10)) \<and>
         row_rgb img 0 =
           Some (blend sr er (fdiv (fl (3 / 10)) (fl (13 / 10))),
                 blend sg eg (fdiv (fl (3 / 10)) (fl (13 / 10))),
                 blend sb eb (fdiv (fl (3 / 10)) (fl (13 / 10)))) \<and>
         (\<exists>g. create_gradient_background SCREENSHOT_SIZE PRIMARY_GRADIENT_START
                PRIMARY_GRADIENT_END = Inr g \<and> img_height g = 800 \<and>
              row_rgb g 799 = Some (30, 64, 175) \<and>
              hex_to_rgb PRIMARY_GRADIENT_END = Inr (30, 64, 175)) \<and>
         (\<exists>g. create_gradient_background SCREENSHOT_SIZE ''#10b981'' ''#059669'' = Inr g \<and>
              img_height g = 800 \<and> row_rgb g 799 = Some (5, 150, 105) \<and>
              hex_to_rgb ''#059669'' = Inr (5, 150, 105)) \<and>
         (\<exists>g. create_gradient_background SCREENSHOT_SIZE ''#8b5cf6'' ''#6d28d9'' = Inr g \<and>
              img_height g = 800 \<and> row_rgb g 799 = Some (109, 40, 217) \<and>
              hex_to_rgb ''#6d28d9'' = Inr (109, 40, 217)) \<and>
         (\<exists>g. create_gradient_background PROMO_TILE_SIZE PRIMARY_GRADIENT_START
                PRIMARY_GRADIENT_END = Inr g \<and> img_height g = 280 \<and>
              row_rgb g 279 = Some (30, 64, 175) \<and>
              hex_to_rgb PRIMARY_GRADIENT_END = Inr (30, 64, 175))"
proof -
  from create_gradient_background_Inr[OF assms(1)] assms(2,3)
  have h: "h < 2 ^ 31"
    and img: "img = Image ''RGB'' w h (RGB 0 0 0)
                (map (gradient_row w h (sr, sg, sb) (er, eg, eb)) [0..h - 1])"
    by auto
  have h0: "0 < h" using assms(4,5) by simp
  have first: "clamp01 (raw_ratio 0 h) = fdiv (fl (3 / 10)) (fl (13 / 10))"
  proof -
    have "0 < raw_ratio 0 h" "raw_ratio 0 h < 1" using h0 h by (auto intro: ratio_unit)
    then have "clamp01 (raw_ratio 0 h) = raw_ratio 0 h" by (simp add: clamp01_id)
    then show ?thesis by (simp only: raw_ratio_first_row)
  qed
  have a: "row_rgb img y =
           Some (blend sr er (clamp01 (raw_ratio y h)), blend sg eg (clamp01 (raw_ratio y h)),
                 blend sb eb (clamp01 (raw_ratio y h)))"
    unfolding img using assms(4,5) by (rule row_rgb_rows)
  have "row_rgb img 0 =
           Some (blend sr er (clamp01 (raw_ratio 0 h)), blend sg eg (clamp01 (raw_ratio 0 h)),
                 blend sb eb (clamp01 (raw_ratio 0 h)))"
    unfolding img using h0 by (intro row_rgb_rows) simp_all
  then have b: "row_rgb img 0 =
           Some (blend sr er (fdiv (fl (3 / 10)) (fl (13 / 10))),
                 blend sg eg (fdiv (fl (3 / 10)) (fl (13 / 10))),
                 blend sb eb (fdiv (fl (3 / 10)) (fl (13 / 10))))"
    by (simp only: first)
  have c1: "\<exists>g. create_gradient_background SCREENSHOT_SIZE PRIMARY_GRADIENT_START
                PRIMARY_GRADIENT_END = Inr g \<and> img_height g = 800 \<and>
              row_rgb g 799 = Some (30, 64, 175) \<and>
              hex_to_rgb PRIMARY_GRADIENT_END = Inr (30, 64, 175)"
    using row_of_gradient[OF _ _ _ _ _ hex_blue_start hex_blue_end ratio_799 clamp_799
        blue_last_row_800, of 1280] hex_blue_end
    by (simp add: SCREENSHOT_SIZE_def)
  have c2: "\<exists>g. create_gradient_background SCREENSHOT_SIZE ''#10b981'' ''#059669'' = Inr g \<and>
              img_height g = 800 \<and> row_rgb g 799 = Some (5, 150, 105) \<and>
              hex_to_rgb ''#059669'' = Inr (5, 150, 105)"
    using row_of_gradient[OF _ _ _ _ _ hex_green_start hex_green_end ratio_799 clamp_799
        green_last_row_800, of 1280] hex_green_end
    by (simp add: SCREENSHOT_SIZE_def)
  have c3: "\<exists>g. create_gradient_background SCREENSHOT_SIZE ''#8b5cf6'' ''#6d28d9'' = Inr g \<and>
              img_height g = 800 \<and> row_rgb g 799 = Some (109, 40, 217) \<and>
              hex_to_rgb ''#6d28d9'' = Inr (109, 40, 217)"
    using row_of_gradient[OF _ _ _ _ _ hex_purple_start hex_purple_end ratio_799 clamp_799
        purple_last_row_800, of 1280] hex_purple_end
    by (simp add: SCREENSHOT_SIZE_def)
  have c4: "\<exists>g. create_gradient_background PROMO_TILE_SIZE PRIMARY_GRADIENT_START
                PRIMARY_GRADIENT_END = Inr g \<and> img_height g = 280 \<and>
              row_rgb g 279 = Some (30, 64, 175) \<and>
              hex_to_rgb PRIMARY_GRADIENT_END = Inr (30, 64, 175)"
    using row_of_gradient[OF _ _ _ _ _ hex_blue_start hex_blue_end ratio_279 clamp_279
        blue_last_row_280, of 440] hex_blue_end
    by (simp add: PROMO_TILE_SIZE_def)
  show ?thesis
    using a first b c1 c2 c3 c4 by (intro conjI)
qed

lemma ratio_1_3: "raw_ratio 1 3 = 4388122713848175 / 9007199254740992"
  by code_simp

lemma clamp_1_3: "clamp01 (4388122713848175 / 9007199254740992) = 4388122713848175 / 9007199254740992"
  by (simp add: clamp01_id)

lemma blue_row_1_3:
  "blend 37 30 (4388122713848175 / 9007199254740992) = 33"
  "blend 99 64 (4388122713848175 / 9007199254740992) = 81"
  "blend 235 175 (4388122713848175 / 9007199254740992) = 205"
  by code_simp+

theorem gradient_rows_witness:
  "row_rgb (Image ''RGB'' 2 3 (RGB 0 0 0)
             (map (gradient_row 2 3 (37, 99, 235) (30, 64, 175)) [0..3 - 1])) 1
     = Some (33, 81, 205)"
proof -
  have y: "0 \<le> (1::int)" "(1::int) < 3" by simp_all
  have "row_rgb (Image ''RGB'' 2 3 (RGB 0 0 0)
             (map (gradient_row 2 3 (37, 99, 235) (30, 64, 175)) [0..3 - 1])) 1
     = Some (blend 37 30 (clamp01 (raw_ratio 1 3)), blend 99 64 (clamp01 (raw_ratio 1 3)),
             blend 235 175 (clamp01 (raw_ratio 1 3)))"
    using gradient_rows[OF gradient_2x3 hex_blue_start hex_blue_end y] by (rule conjunct1)
  then show ?thesis
    by (simp only: ratio_1_3 clamp_1_3 blue_row_1_3)
qed

section \<open>The icon\<close>

lemma icon_shape:
  assumes "0 \<le> sz" "sz < 2 ^ 31"
  shows "create_currency_icon e sz =
    Inr (Image ''RGBA'' sz sz (RGBA 0 0 0 0)
      ([Ellipse (sz - margin_of sz - coin_size_of sz, sz - margin_of sz - coin_size_of sz,
                 sz - margin_of sz, sz - margin_of sz) PRIMARY_DARK NoFill 1,
        Ellipse (sz - margin_of sz - coin_size_of sz + max 1 (scaled (coin_size_of sz) (8 / 100)),
                 sz - margin_of sz - coin_size_of sz + max 1 (scaled (coin_size_of sz) (8 / 100)),
                 sz - margin_of sz - max 1 (scaled (coin_size_of sz) (8 / 100)),
                 sz - margin_of sz - max 1 (scaled (coin_size_of sz) (8 / 100)))
          (RGB 35 75 190) NoFill 1,
        Ellipse (margin_of sz, margin_of sz, margin_of sz + coin_size_of sz,
                 margin_of sz + coin_size_of sz) PRIMARY_COLOR NoFill 1,
        Ellipse (margin_of sz + max 1 (scaled (coin_size_of sz) (8 / 100)),
                 margin_of sz + max 1 (scaled (coin_size_of sz) (8 / 100)),
                 margin_of sz + coin_size_of sz - max 1 (scaled (coin_size_of sz) (8 / 100)),
                 margin_of sz + coin_size_of sz - max 1 (scaled (coin_size_of sz) (8 / 100)))
          PRIMARY_LIGHT NoFill 1,
        Text (margin_of sz + (coin_size_of sz
                 - fst (measure_text e (get_font e (font_size_of sz)) (font_size_of sz) (ascii ''$''))) div 2,
              margin_of sz + (coin_size_of sz
                 - snd (measure_text e (get_font e (font_size_of sz)) (font_size_of sz) (ascii ''$''))) div 2
                 - scaled sz (2 / 100))
          (ascii ''$'') ICON_WHITE (get_font e (font_size_of sz))]
       @ (if 32 \<le> sz then
            [Text (sz - margin_of sz - coin_size_of sz + (coin_size_of sz
                     - fst (measure_text e (get_font e (font_size_of sz)) (font_size_of sz) [8364])) div 2,
                   sz - margin_of sz - coin_size_of sz + (coin_size_of sz
                     - snd (measure_text e (get_font e (font_size_of sz)) (font_size_of sz) [8364])) div 2
                     - scaled sz (2 / 100))
               [8364] (RGB 220 225 240) (get_font e (font_size_of sz))]
          else [])
       @ (if 48 \<le> sz then
            [Line (sz div 2 - scaled sz (10 / 100), sz div 2 - scaled sz (5 / 100))
                  (sz div 2 + scaled sz (10 / 100), sz div 2 - scaled sz (5 / 100))
               GREEN (max 2 (scaled sz (25 / 1000))),
             Polygon [(sz div 2 + scaled sz (10 / 100), sz div 2 - scaled sz (5 / 100)),
                      (sz div 2 + scaled sz (10 / 100) - max 3 (scaled sz (4 / 100)),
                       sz div 2 - scaled sz (5 / 100) - max 3 (scaled sz (4 / 100))),
                      (sz div 2 + scaled sz (10 / 100) - max 3 (scaled sz (4 / 100)),
                       sz div 2 - scaled sz (5 / 100) + max 3 (scaled sz (4 / 100)))] GREEN,
             Line (sz div 2 + scaled sz (10 / 100), sz div 2 + scaled sz (5 / 100))
                  (sz div 2 - scaled sz (10 / 100), sz div 2 + scaled sz (5 / 100))
               GREEN (max 2 (scaled sz (25 / 1000))),
             Polygon [(sz div 2 - scaled sz (10 / 100), sz div 2 + scaled sz (5 / 100)),
                      (sz div 2 - scaled sz (10 / 100) + max 3 (scaled sz (4 / 100)),
                       sz div 2 + scaled sz (5 / 100) - max 3 (scaled sz (4 / 100))),
                      (sz div 2 - scaled sz (10 / 100) + max 3 (scaled sz (4 / 100)),
                       sz div 2 + scaled sz (5 / 100) + max 3 (scaled sz (4 / 100)))] GREEN]
          else [])))"
  using assms
  by (simp add: create_currency_icon_def Image_new_def Let_def draw_def split_beta)

lemma icon_fails:
  assumes "sz < 0 \<or> 2 ^ 31 \<le> sz"
  shows "create_currency_icon e sz = Inl ImageSizeError"
  using assms by (auto simp: create_currency_icon_def Image_new_def)

lemma sizes_margin:
  "margin_of 16 = 1" "margin_of 32 = 2" "margin_of 48 = 3" "margin_of 96 = 7" "margin_of 128 = 10"
  by code_simp+

lemma sizes_coin:
  "coin_size_of 16 = 9" "coin_size_of 32 = 19" "coin_size_of 48 = 29" "coin_size_of 96 = 59"
  "coin_size_of 128 = 79"
  by code_simp+

lemma sizes_font_scaled:
  "scaled 9 (9 / 20) = 4" "scaled 19 (9 / 20) = 8" "scaled 29 (9 / 20) = 13"
  "scaled 59 (9 / 20) = 26" "scaled 79 (9 / 20) = 35"
  by code_simp+

lemma sizes_font:
  "font_size_of 16 = 10" "font_size_of 32 = 10" "font_size_of 48 = 13" "font_size_of 96 = 26"
  "font_size_of 128 = 35"
  by (simp_all add: font_size_of_def sizes_coin sizes_font_scaled)

lemma scaled_128:
  "scaled 128 (1 / 50) = 2" "scaled 79 (2 / 25) = 6" "scaled 128 (1 / 10) = 12"
  "scaled 128 (1 / 20) = 6" "scaled 128 (1 / 25) = 5" "scaled 128 (1 / 40) = 3"
  by code_simp+

lemma scaled_16:
  "scaled 16 (1 / 50) = 0" "scaled 9 (2 / 25) = 0"
  by code_simp+

lemma get_font_sample: "get_font sample_env n = FreeTypeFont ''/System/Library/Fonts/Helvetica.ttc'' (max 8 n)"
  by (simp add: get_font_def sample_env_def ImageFont_truetype_def Let_def)

lemma measure_text_sample: "measure_text sample_env f n s = (20, 30)"
  by (simp add: measure_text_def sample_env_def)

lemma icon_128_sample:
  "create_currency_icon sample_env 128 =
     Inr (Image ''RGBA'' 128 128 (RGBA 0 0 0 0)
       [Ellipse (39, 39, 118, 118) (RGB 30 64 175) NoFill 1,
        Ellipse (45, 45, 112, 112) (RGB 35 75 190) NoFill 1,
        Ellipse (10, 10, 89, 89) (RGB 37 99 235) NoFill 1,
        Ellipse (16, 16, 83, 83) (RGB 59 130 246) NoFill 1,
        Text (39, 32) [36] (RGB 255 255 255)
          (FreeTypeFont ''/System/Library/Fonts/Helvetica.ttc'' 35),
        Text (68, 61) [8364] (RGB 220 225 240)
          (FreeTypeFont ''/System/Library/Fonts/Helvetica.ttc'' 35),
        Line (52, 58) (76, 58) (RGB 16 185 129) 3,
        Polygon [(76, 58), (71, 53), (71, 63)] (RGB 16 185 129),
        Line (76, 70) (52, 70) (RGB 16 185 129) 3,
        Polygon [(52, 70), (57, 65), (57, 75)] (RGB 16 185 129)])"
proof -
  have "(0::int) \<le> 128" "(128::int) < 2 ^ 31" by simp_all
  then show ?thesis
    by (simp add: icon_shape sizes_margin sizes_coin sizes_font scaled_128 get_font_sample
        measure_text_sample PRIMARY_DARK_def PRIMARY_COLOR_def PRIMARY_LIGHT_def ICON_WHITE_def
        GREEN_def ascii_def)
qed

lemma icon_16_sample:
  "create_currency_icon sample_env 16 =
     Inr (Image ''RGBA'' 16 16 (RGBA 0 0 0 0)
       [Ellipse (6, 6, 15, 15) (RGB 30 64 175) NoFill 1,
        Ellipse (7, 7, 14, 14) (RGB 35 75 190) NoFill 1,
        Ellipse (1, 1, 10, 10) (RGB 37 99 235) NoFill 1,
        Ellipse (2, 2, 9, 9) (RGB 59 130 246) NoFill 1,
        Text (- 5, - 10) [36] (RGB 255 255 255)
          (FreeTypeFont ''/System/Library/Fonts/Helvetica.ttc'' 10)])"
proof -
  have "(0::int) \<le> 16" "(16::int) < 2 ^ 31" by simp_all
  then show ?thesis
    by (simp add: icon_shape sizes_margin sizes_coin sizes_font scaled_16 get_font_sample
        measure_text_sample PRIMARY_DARK_def PRIMARY_COLOR_def PRIMARY_LIGHT_def ICON_WHITE_def
        GREEN_def ascii_def)
qed

lemma icon_Inr_range:
  assumes "create_currency_icon e sz = Inr img"
  shows "0 \<le> sz \<and> sz < 2 ^ 31"
proof (rule ccontr)
  assume "\<not> (0 \<le> sz \<and> sz < 2 ^ 31)"
  then have "sz < 0 \<or> 2 ^ 31 \<le> sz" by auto
  then have "create_currency_icon e sz = Inl ImageSizeError" by (rule icon_fails)
  with assms show False by simp
qed

text \<open>
  Claim C7. For every size in the configured set, \<open>create_currency_icon\<close> allocates a
  square RGBA canvas of that size filled with the fully transparent colour, and the canvas
  it returns has that width and height (and is still that canvas: same mode and initial
  colour).
\<close>

theorem icon_canvas:
  assumes "sz \<in> set SIZES"
  shows "Image_new ''RGBA'' (sz, sz) (RGBA 0 0 0 0) = Inr (Image ''RGBA'' sz sz (RGBA 0 0 0 0) []) \<and>
         (\<exists>img. create_currency_icon e sz = Inr img \<and> img_mode img = ''RGBA'' \<and>
            img_background img = RGBA 0 0 0 0 \<and> img_width img = sz \<and> img_height img = sz)"
proof -
  have r: "0 \<le> sz" "sz < 2 ^ 31" using assms by (auto simp: SIZES_def)
  then have "Image_new ''RGBA'' (sz, sz) (RGBA 0 0 0 0) = Inr (Image ''RGBA'' sz sz (RGBA 0 0 0 0) [])"
    by (simp add: Image_new_def)
  then show ?thesis by (simp add: icon_shape[OF r])
qed

theorem icon_canvas_witness:
  "Image_new ''RGBA'' (48, 48) (RGBA 0 0 0 0) = Inr (Image ''RGBA'' 48 48 (RGBA 0 0 0 0) []) \<and>
   (\<exists>img. create_currency_icon bare_env 48 = Inr img \<and> img_mode img = ''RGBA'' \<and>
      img_background img = RGBA 0 0 0 0 \<and> img_width img = 48 \<and> img_height img = 48)"
proof -
  have "(48::int) \<in> set SIZES" by (simp add: SIZES_def)
  then show ?thesis by (rule icon_canvas)
qed

text \<open>
  The margin is not 8% of the size as a number, nor the coin diameter 62%: for the
  16 pixel icon they are 1 and 9, where 8% and 62% of 16 are 1.28 and 9.92.
\<close>

theorem icon_margin_is_truncated:
  "margin_of 16 = 1 \<and> coin_size_of 16 = 9 \<and>
   (of_int (margin_of 16) :: rat) \<noteq> 8 / 100 * 16 \<and>
   (of_int (coin_size_of 16) :: rat) \<noteq> 62 / 100 * 16"
  by (simp add: sizes_margin sizes_coin)

text \<open>
  Claim C8, amended. For every size in the configured set, the margin is 8% of the size
  and the coin diameter 62% of the size, each rounded down to a whole number of pixels;
  the glyph font size is 45% of the coin diameter, rounded down, but at least 10. The
  icon is drawn with them: the front coin is the ellipse in the box from (margin, margin)
  to (margin + diameter, margin + diameter), and the glyph font is requested at that
  font size.
\<close>

theorem icon_dimensions:
  assumes "sz \<in> set SIZES"
  shows "margin_of sz = 8 * sz div 100 \<and> coin_size_of sz = 62 * sz div 100 \<and>
         font_size_of sz = max 10 (45 * coin_size_of sz div 100) \<and> 10 \<le> font_size_of sz \<and>
         (\<exists>img. create_currency_icon e sz = Inr img \<and>
            img_ops img ! 2 = Ellipse (margin_of sz, margin_of sz, margin_of sz + coin_size_of sz,
                                       margin_of sz + coin_size_of sz) PRIMARY_COLOR NoFill 1 \<and>
            (\<exists>p. img_ops img ! 4 = Text p (ascii ''$'') ICON_WHITE (get_font e (font_size_of sz))))"
proof -
  have r: "0 \<le> sz" "sz < 2 ^ 31" using assms by (auto simp: SIZES_def)
  have "margin_of sz = 8 * sz div 100 \<and> coin_size_of sz = 62 * sz div 100 \<and>
         font_size_of sz = max 10 (45 * coin_size_of sz div 100) \<and> 10 \<le> font_size_of sz"
    using assms by (auto simp: SIZES_def sizes_margin sizes_coin sizes_font)
  then show ?thesis by (simp add: icon_shape[OF r])
qed

theorem icon_dimensions_witness:
  "margin_of 96 = 7 \<and> coin_size_of 96 = 59 \<and> font_size_of 96 = 26 \<and>
   (\<exists>img. create_currency_icon bare_env 96 = Inr img \<and>
      img_ops img ! 2 = Ellipse (7, 7, 66, 66) PRIMARY_COLOR NoFill 1 \<and>
      (\<exists>p. img_ops img ! 4 = Text p (ascii ''$'') ICON_WHITE (get_font bare_env 26)))"
proof -
  have "(96::int) \<in> set SIZES" by (simp add: SIZES_def)
  from icon_dimensions[OF this, of bare_env] show ?thesis
    by (simp add: sizes_margin sizes_coin sizes_font)
qed



text \<open>
  The glyph is not centred vertically. On the 128 pixel icon, with a text box of 20 by
  30 pixels, the front coin occupies rows 10 to 89 and a centred box would start at row
  34; the dollar sign is drawn at row 32, two pixels higher (2% of the size).
\<close>

theorem icon_glyph_above_centre:
  "create_currency_icon sample_env 128 =
     Inr (Image ''RGBA'' 128 128 (RGBA 0 0 0 0)
       [Ellipse (39, 39, 118, 118) (RGB 30 64 175) NoFill 1,
        Ellipse (45, 45, 112, 112) (RGB 35 75 190) NoFill 1,
        Ellipse (10, 10, 89, 89) (RGB 37 99 235) NoFill 1,
        Ellipse (16, 16, 83, 83) (RGB 59 130 246) NoFill 1,
        Text (39, 32) [36] (RGB 255 255 255)
          (FreeTypeFont ''/System/Library/Fonts/Helvetica.ttc'' 35),
        Text (68, 61) [8364] (RGB 220 225 240)
          (FreeTypeFont ''/System/Library/Fonts/Helvetica.ttc'' 35),
        Line (52, 58) (76, 58) (RGB 16 185 129) 3,
        Polygon [(76, 58), (71, 53), (71, 63)] (RGB 16 185 129),
        Line (76, 70) (52, 70) (RGB 16 185 129) 3,
        Polygon [(52, 70), (57, 65), (57, 75)] (RGB 16 185 129)]) \<and>
   measure_text sample_env (get_font sample_env (font_size_of 128)) (font_size_of 128)
     (ascii ''$'') = (20, 30) \<and>
   margin_of 128 + (coin_size_of 128 - 30) div 2 = 34"
  using icon_128_sample by (simp add: measure_text_sample sizes_margin sizes_coin)

text \<open>
  Claim C4, amended. On the canvas that \<open>create_currency_icon\<close> returns, the first
  glyph is always the dollar sign on the front coin; a second glyph, the euro sign on
  the back coin, is drawn if and only if the size is at least 32. Each glyph is placed by
  centring its measured box in the coin's box (floor division by 2), horizontally as it
  is, vertically moved up by \<open>int(size * 0.02)\<close> pixels.
\<close>

theorem icon_glyphs:
  assumes "create_currency_icon e sz = Inr img"
  shows "length (glyphs img) = (if 32 \<le> sz then 2 else 1) \<and>
         (let margin = margin_of sz;
              coin_size = coin_size_of sz;
              back = sz - margin - coin_size;
              font_size = font_size_of sz;
              font = get_font e font_size;
              lift = scaled sz (2 / 100);
              (dollar_width, dollar_height) = measure_text e font font_size (ascii ''$'');
              (euro_width, euro_height) = measure_text e font font_size [8364]
          in glyphs img =
               Text (margin + (coin_size - dollar_width) div 2,
                     margin + (coin_size - dollar_height) div 2 - lift)
                 (ascii ''$'') ICON_WHITE font #
               (if 32 \<le> sz then
                  [Text (back + (coin_size - euro_width) div 2,
                         back + (coin_size - euro_height) div 2 - lift)
                     [8364] (RGB 220 225 240) font]
                else []))"
proof -
  have r: "0 \<le> sz" "sz < 2 ^ 31" using icon_Inr_range[OF assms] by simp_all
  have "img = projr (create_currency_icon e sz)" using assms by simp
  then show ?thesis
    unfolding icon_shape[OF r] by (simp add: glyphs_def Let_def split_beta)
qed

theorem icon_glyphs_witness:
  "glyphs (Image ''RGBA'' 16 16 (RGBA 0 0 0 0)
       [Ellipse (6, 6, 15, 15) (RGB 30 64 175) NoFill 1,
        Ellipse (7, 7, 14, 14) (RGB 35 75 190) NoFill 1,
        Ellipse (1, 1, 10, 10) (RGB 37 99 235) NoFill 1,
        Ellipse (2, 2, 9, 9) (RGB 59 130 246) NoFill 1,
        Text (- 5, - 10) [36] (RGB 255 255 255)
          (FreeTypeFont ''/System/Library/Fonts/Helvetica.ttc'' 10)]) =
     [Text (- 5, - 10) (ascii ''$'') ICON_WHITE (get_font sample_env 10)] \<and>
   glyphs (Image ''RGBA'' 128 128 (RGBA 0 0 0 0)
       [Ellipse (39, 39, 118, 118) (RGB 30 64 175) NoFill 1,
        Ellipse (45, 45, 112, 112) (RGB 35 75 190) NoFill 1,
        Ellipse (10, 10, 89, 89) (RGB 37 99 235) NoFill 1,
        Ellipse (16, 16, 83, 83) (RGB 59 130 246) NoFill 1,
        Text (39, 32) [36] (RGB 255 255 255)
          (FreeTypeFont ''/System/Library/Fonts/Helvetica.ttc'' 35),
        Text (68, 61) [8364] (RGB 220 225 240)
          (FreeTypeFont ''/System/Library/Fonts/Helvetica.ttc'' 35),
        Line (52, 58) (76, 58) (RGB 16 185 129) 3,
        Polygon [(76, 58), (71, 53), (71, 63)] (RGB 16 185 129),
        Line (76, 70) (52, 70) (RGB 16 185 129) 3,
        Polygon [(52, 70), (57, 65), (57, 75)] (RGB 16 185 129)]) =
     [Text (39, 32) (ascii ''$'') ICON_WHITE (get_font sample_env 35),
      Text (68, 61) [8364] (RGB 220 225 240) (get_font sample_env 35)]"
  using icon_glyphs[OF icon_16_sample] icon_glyphs[OF icon_128_sample]
  by (simp add: Let_def scaled_128 scaled_16 sizes_margin sizes_coin sizes_font
      measure_text_sample)

section \<open>The store assets\<close>

lemma draw_rounded_rectangle_sel:
  "img_ops (draw_rounded_rectangle img xy radius fill shadow) = img_ops img @ [RoundedRectangle xy radius fill]"
  "img_width (draw_rounded_rectangle img xy radius fill shadow) = img_width img"
  "img_height (draw_rounded_rectangle img xy radius fill shadow) = img_height img"
  "img_mode (draw_rounded_rectangle img xy radius fill shadow) = img_mode img"
  "img_background (draw_rounded_rectangle img xy radius fill shadow) = img_background img"
  by (simp_all add: draw_rounded_rectangle_def draw_sel split_beta)

lemma quick_access_button_dims:
  "img_width (fst (quick_access_button f y ic st)) = img_width (fst st) \<and>
   img_height (fst (quick_access_button f y ic st)) = img_height (fst st)"
  by (simp add: quick_access_button_def Let_def split_beta draw_sel draw_rounded_rectangle_sel)

lemma fold_quick_access_button_dims:
  "img_width (fst (fold (quick_access_button f y) xs st)) = img_width (fst st) \<and>
   img_height (fst (fold (quick_access_button f y) xs st)) = img_height (fst st)"
  by (induction xs arbitrary: st) (simp_all add: quick_access_button_dims)

text \<open>
  Claim C9. The result of \<open>draw_rounded_rectangle\<close> does not depend on its \<open>shadow\<close>
  argument: for every canvas, box, radius and fill, the call with \<open>shadow=True\<close> and the
  call with \<open>shadow=False\<close> leave the same canvas.
\<close>

theorem draw_rounded_rectangle_ignores_shadow:
  "draw_rounded_rectangle img xy radius fill True = draw_rounded_rectangle img xy radius fill False"
  by (simp add: draw_rounded_rectangle_def)

lemma create_mock_popup_cases:
  "(\<exists>img. fst (create_mock_popup e (w, h)) = Inr img \<and> img_width img = w \<and> img_height img = h)
   \<or> fst (create_mock_popup e (w, h)) = Inl ImageSizeError
   \<or> fst (create_mock_popup e (w, h)) = Inl TextBBoxError"
  by (simp add: create_mock_popup_def Image_new_def Let_def split_beta draw_sel
      draw_rounded_rectangle_sel fold_draw_dims fold_quick_access_button_dims
      quick_access_button_dims
      split: option.splits)

lemma create_mock_popup_returns:
  assumes "0 \<le> w" "w < 2 ^ 31" "0 \<le> h" "h < 2 ^ 31"
    and "text_bbox e (fst (fonts_or_default e
           [(HELVETICA, 16), (HELVETICA, 14), (HELVETICA, 12), (HELVETICA, 32)]) ! 1)
           (ascii ''Save to History'') \<noteq> None"
  shows "\<exists>img. fst (create_mock_popup e (w, h)) = Inr img"
  using assms
  by (auto simp: create_mock_popup_def Image_new_def Let_def split_beta split: option.splits)

lemma create_mock_popup_calls:
  assumes "0 \<le> w" "w < 2 ^ 31" "0 \<le> h" "h < 2 ^ 31"
  shows "snd (create_mock_popup e (w, h)) =
           snd (fonts_or_default e
             [(HELVETICA, 16), (HELVETICA, 14), (HELVETICA, 12), (HELVETICA, 32)])"
  using assms
  by (auto simp: create_mock_popup_def Image_new_def Let_def split_beta split: option.splits)

text \<open>
  Claim C6. For every requested size, a canvas returned by \<open>create_mock_popup\<close> has
  exactly the requested width and height, whatever fonts load and whatever the text
  measures.
\<close>

theorem mock_popup_dimensions:
  assumes "fst (create_mock_popup e (w, h)) = Inr img"
  shows "img_width img = w \<and> img_height img = h"
  using create_mock_popup_cases[of e w h] assms by auto

theorem mock_popup_dimensions_witness:
  "\<exists>img. fst (create_mock_popup sample_env (360, 400)) = Inr img \<and>
     img_width img = 360 \<and> img_height img = 400"
proof -
  have "text_bbox sample_env (fst (fonts_or_default sample_env
           [(HELVETICA, 16), (HELVETICA, 14), (HELVETICA, 12), (HELVETICA, 32)]) ! 1)
           (ascii ''Save to History'') \<noteq> None"
    by (simp add: sample_env_def)
  then obtain img where img: "fst (create_mock_popup sample_env (360, 400)) = Inr img"
    using create_mock_popup_returns[of 360 400 sample_env] by auto
  from mock_popup_dimensions[OF img] img show ?thesis by blast
qed

lemma load_seq_calls_no_default: "LoadDefault \<notin> set (snd (load_seq e reqs))"
  by (induction reqs) (auto split: sum.splits prod.splits)

lemma load_seq_result:
  "fst (load_seq e reqs) =
     (if list_all (loads e) reqs then Some (map requested_font reqs) else None)"
proof (induction reqs)
  case Nil
  then show ?case by simp
next
  case (Cons r rs)
  obtain p s where r: "r = (p, s)" by force
  obtain x calls where x: "load_seq e rs = (x, calls)" by force
  with Cons.IH have ih: "x = (if list_all (loads e) rs then Some (map requested_font rs) else None)"
    by simp
  have hd: "loads e (p, s) = font_file_loads e p s" "requested_font (p, s) = FreeTypeFont p s"
    by (simp_all add: loads_def requested_font_def)
  show ?case
    by (simp add: r x ih ImageFont_truetype_def hd)
qed

lemma fonts_or_default_fonts:
  "fst (fonts_or_default e reqs) =
     (if list_all (loads e) reqs then map requested_font reqs
      else replicate (length reqs) DefaultFont)"
proof -
  obtain r calls where rc: "load_seq e reqs = (r, calls)" by force
  then have "r = (if list_all (loads e) reqs then Some (map requested_font reqs) else None)"
    using load_seq_result[of e reqs] by simp
  then show ?thesis
    by (simp add: fonts_or_default_def rc ImageFont_load_default_def)
qed

lemma fonts_or_default_count:
  "count_list (snd (fonts_or_default e reqs)) LoadDefault =
     (if list_all (loads e) reqs then 0 else 1)"
proof -
  obtain r calls where rc: "load_seq e reqs = (r, calls)" by force
  then have r: "r = (if list_all (loads e) reqs then Some (map requested_font reqs) else None)"
    using load_seq_result[of e reqs] by simp
  have "LoadDefault \<notin> set calls" using load_seq_calls_no_default[of e reqs] rc by simp
  then have n: "count_list calls LoadDefault = 0" by (simp add: count_list_0_iff)
  show ?thesis
    by (simp add: fonts_or_default_def rc r n)
qed

lemma gradient_screenshot_blue:
  "\<exists>img. create_gradient_background SCREENSHOT_SIZE PRIMARY_GRADIENT_START PRIMARY_GRADIENT_END
           = Inr img"
  using create_gradient_background_total[OF _ _ _ _ hex_blue_start hex_blue_end, of 1280 800]
  by (simp add: SCREENSHOT_SIZE_def)

lemma gradient_screenshot_green:
  "\<exists>img. create_gradient_background SCREENSHOT_SIZE ''#10b981'' ''#059669'' = Inr img"
  using create_gradient_background_total[OF _ _ _ _ hex_green_start hex_green_end, of 1280 800]
  by (simp add: SCREENSHOT_SIZE_def)

lemma gradient_screenshot_purple:
  "\<exists>img. create_gradient_background SCREENSHOT_SIZE ''#8b5cf6'' ''#6d28d9'' = Inr img"
  using create_gradient_background_total[OF _ _ _ _ hex_purple_start hex_purple_end, of 1280 800]
  by (simp add: SCREENSHOT_SIZE_def)

lemma gradient_promo:
  "\<exists>img. create_gradient_background PROMO_TILE_SIZE PRIMARY_GRADIENT_START PRIMARY_GRADIENT_END
           = Inr img"
  using create_gradient_background_total[OF _ _ _ _ hex_blue_start hex_blue_end, of 440 280]
  by (simp add: PROMO_TILE_SIZE_def)

lemma create_screenshot_2_eq:
  "\<exists>img. create_screenshot_2 e =
     (Inr img, snd (fonts_or_default e [(HELVETICA, 56), (HELVETICA, 28), (HELVETICA, 24)]))"
proof -
  obtain g where "create_gradient_background SCREENSHOT_SIZE ''#10b981'' ''#059669'' = Inr g"
    using gradient_screenshot_green by blast
  then show ?thesis
    by (simp add: create_screenshot_2_def Let_def split_beta)
qed

lemma create_screenshot_3_eq:
  "\<exists>img. create_screenshot_3 e =
     (Inr img, snd (fonts_or_default e [(HELVETICA, 56), (HELVETICA, 28)]))"
proof -
  obtain g where "create_gradient_background SCREENSHOT_SIZE ''#8b5cf6'' ''#6d28d9'' = Inr g"
    using gradient_screenshot_purple by blast
  then show ?thesis
    by (simp add: create_screenshot_3_def Let_def split_beta)
qed

lemma create_promo_tile_eq:
  "\<exists>img. create_promo_tile e =
     (Inr img, snd (fonts_or_default e [(HELVETICA, 32), (HELVETICA, 18), (HELVETICA, 48)]))"
proof -
  obtain g where "create_gradient_background PROMO_TILE_SIZE PRIMARY_GRADIENT_START
                    PRIMARY_GRADIENT_END = Inr g"
    using gradient_promo by blast
  then show ?thesis
    by (simp add: create_promo_tile_def Let_def split_beta)
qed

lemma create_mock_popup_valid:
  assumes "0 \<le> w" "w < 2 ^ 31" "0 \<le> h" "h < 2 ^ 31"
  shows "(\<exists>img. fst (create_mock_popup e (w, h)) = Inr img)
         \<or> fst (create_mock_popup e (w, h)) = Inl TextBBoxError"
  using assms
  by (auto simp: create_mock_popup_def Image_new_def Let_def split_beta split: option.splits)

lemma create_screenshot_1_eq:
  "(\<exists>img. fst (create_screenshot_1 e) = Inr img) \<or> fst (create_screenshot_1 e) = Inl TextBBoxError"
  "snd (create_screenshot_1 e) =
     snd (fonts_or_default e [(HELVETICA, 56), (HELVETICA, 28)]) @
     snd (fonts_or_default e [(HELVETICA, 16), (HELVETICA, 14), (HELVETICA, 12), (HELVETICA, 32)])"
  "text_bbox e (fst (fonts_or_default e
           [(HELVETICA, 16), (HELVETICA, 14), (HELVETICA, 12), (HELVETICA, 32)]) ! 1)
           (ascii ''Save to History'') \<noteq> None \<Longrightarrow> \<exists>img. fst (create_screenshot_1 e) = Inr img"
proof -
  obtain g where g: "create_gradient_background SCREENSHOT_SIZE PRIMARY_GRADIENT_START
                    PRIMARY_GRADIENT_END = Inr g"
    using gradient_screenshot_blue by blast
  have calls: "snd (create_mock_popup e (360, 420)) =
      snd (fonts_or_default e [(HELVETICA, 16), (HELVETICA, 14), (HELVETICA, 12), (HELVETICA, 32)])"
    by (rule create_mock_popup_calls) simp_all
  have sh: "Image_new ''RGBA'' (380, 440) (RGBA 0 0 0 0) = Inr (Image ''RGBA'' 380 440 (RGBA 0 0 0 0) [])"
    by (simp add: Image_new_def)
  show "snd (create_screenshot_1 e) =
     snd (fonts_or_default e [(HELVETICA, 56), (HELVETICA, 28)]) @
     snd (fonts_or_default e [(HELVETICA, 16), (HELVETICA, 14), (HELVETICA, 12), (HELVETICA, 32)])"
    using g calls sh
    by (simp add: create_screenshot_1_def Let_def split_beta split: sum.splits)
  show "(\<exists>img. fst (create_screenshot_1 e) = Inr img) \<or> fst (create_screenshot_1 e) = Inl TextBBoxError"
    using g sh create_mock_popup_valid[of 360 420 e]
    by (auto simp: create_screenshot_1_def Let_def split_beta split: sum.splits)
  show "\<exists>img. fst (create_screenshot_1 e) = Inr img"
    if tb: "text_bbox e (fst (fonts_or_default e
           [(HELVETICA, 16), (HELVETICA, 14), (HELVETICA, 12), (HELVETICA, 32)]) ! 1)
           (ascii ''Save to History'') \<noteq> None"
  proof -
    obtain p where "fst (create_mock_popup e (360, 420)) = Inr p"
      using create_mock_popup_returns[of 360 420 e] tb by auto
    then show ?thesis
      using g sh by (simp add: create_screenshot_1_def Let_def split_beta)
  qed
qed

lemma main_calls:
  assumes w: "\<And>name. can_write e name"
    and tb: "text_bbox e (fst (fonts_or_default e
           [(HELVETICA, 16), (HELVETICA, 14), (HELVETICA, 12), (HELVETICA, 32)]) ! 1)
           (ascii ''Save to History'') \<noteq> None"
  shows "snd (main e) =
           snd (fonts_or_default e [(HELVETICA, 56), (HELVETICA, 28)]) @
           snd (fonts_or_default e [(HELVETICA, 16), (HELVETICA, 14), (HELVETICA, 12), (HELVETICA, 32)]) @
           snd (fonts_or_default e [(HELVETICA, 56), (HELVETICA, 28), (HELVETICA, 24)]) @
           snd (fonts_or_default e [(HELVETICA, 56), (HELVETICA, 28)]) @
           snd (fonts_or_default e [(HELVETICA, 32), (HELVETICA, 18), (HELVETICA, 48)])"
    and "\<exists>files. fst (main e) = Inr files \<and>
           map fst files = [''screenshot-1-converter.png'', ''screenshot-2-currencies.png'',
                            ''screenshot-3-realtime.png'', ''promo-tile-440x280.png'']"
proof -
  obtain i1 where "fst (create_screenshot_1 e) = Inr i1"
    using create_screenshot_1_eq(3)[OF tb] by blast
  then have s1: "create_screenshot_1 e = (Inr i1,
      snd (fonts_or_default e [(HELVETICA, 56), (HELVETICA, 28)]) @
      snd (fonts_or_default e [(HELVETICA, 16), (HELVETICA, 14), (HELVETICA, 12), (HELVETICA, 32)]))"
    using create_screenshot_1_eq(2)[of e] by (simp add: prod_eq_iff)
  obtain i2 where s2: "create_screenshot_2 e =
     (Inr i2, snd (fonts_or_default e [(HELVETICA, 56), (HELVETICA, 28), (HELVETICA, 24)]))"
    using create_screenshot_2_eq by blast
  obtain i3 where s3: "create_screenshot_3 e =
     (Inr i3, snd (fonts_or_default e [(HELVETICA, 56), (HELVETICA, 28)]))"
    using create_screenshot_3_eq by blast
  obtain i4 where s4: "create_promo_tile e =
     (Inr i4, snd (fonts_or_default e [(HELVETICA, 32), (HELVETICA, 18), (HELVETICA, 48)]))"
    using create_promo_tile_eq by blast
  have m: "main e =
      (Inr [(''screenshot-1-converter.png'', i1), (''screenshot-2-currencies.png'', i2),
            (''screenshot-3-realtime.png'', i3), (''promo-tile-440x280.png'', i4)],
       (snd (fonts_or_default e [(HELVETICA, 56), (HELVETICA, 28)]) @
        snd (fonts_or_default e [(HELVETICA, 16), (HELVETICA, 14), (HELVETICA, 12), (HELVETICA, 32)])) @
       snd (fonts_or_default e [(HELVETICA, 56), (HELVETICA, 28), (HELVETICA, 24)]) @
       snd (fonts_or_default e [(HELVETICA, 56), (HELVETICA, 28)]) @
       snd (fonts_or_default e [(HELVETICA, 32), (HELVETICA, 18), (HELVETICA, 48)]))"
    unfolding main_def
    by (simp add: w run_asset_def save_def s1 s2 s3 s4)
  show "snd (main e) =
           snd (fonts_or_default e [(HELVETICA, 56), (HELVETICA, 28)]) @
           snd (fonts_or_default e [(HELVETICA, 16), (HELVETICA, 14), (HELVETICA, 12), (HELVETICA, 32)]) @
           snd (fonts_or_default e [(HELVETICA, 56), (HELVETICA, 28), (HELVETICA, 24)]) @
           snd (fonts_or_default e [(HELVETICA, 56), (HELVETICA, 28)]) @
           snd (fonts_or_default e [(HELVETICA, 32), (HELVETICA, 18), (HELVETICA, 48)])"
    by (simp add: m)
  show "\<exists>files. fst (main e) = Inr files \<and>
           map fst files = [''screenshot-1-converter.png'', ''screenshot-2-currencies.png'',
                            ''screenshot-3-realtime.png'', ''promo-tile-440x280.png'']"
    by (simp add: m)
qed

lemma main_fallbacks:
  assumes w: "\<And>name. can_write e name"
    and tb: "text_bbox e (fst (fonts_or_default e
           [(HELVETICA, 16), (HELVETICA, 14), (HELVETICA, 12), (HELVETICA, 32)]) ! 1)
           (ascii ''Save to History'') \<noteq> None"
  shows "count_list (snd (main e)) LoadDefault =
           (if list_all (loads e) [(HELVETICA, 56), (HELVETICA, 28)] then 0 else 1) +
           (if list_all (loads e) [(HELVETICA, 16), (HELVETICA, 14), (HELVETICA, 12), (HELVETICA, 32)]
            then 0 else 1) +
           (if list_all (loads e) [(HELVETICA, 56), (HELVETICA, 28), (HELVETICA, 24)] then 0 else 1) +
           (if list_all (loads e) [(HELVETICA, 56), (HELVETICA, 28)] then 0 else 1) +
           (if list_all (loads e) [(HELVETICA, 32), (HELVETICA, 18), (HELVETICA, 48)] then 0 else 1)"
  unfolding main_calls(1)[of e, OF w tb] count_list_append fonts_or_default_count by simp

lemma bare_env_facts:
  "can_write bare_env name"
  "text_bbox bare_env f s \<noteq> None"
  "\<not> loads bare_env r"
  by (simp_all add: bare_env_def loads_def)

lemma partial_env_facts:
  "can_write partial_env name"
  "text_bbox partial_env f s \<noteq> None"
  "loads partial_env (p, n) = (n \<noteq> 56)"
  by (simp_all add: partial_env_def loads_def)

text \<open>
  The default font is substituted at five places, not four. On a machine without the
  font files a run of the driver calls \<open>ImageFont.load_default\<close> five times: once each
  in \<open>create_screenshot_1\<close>, \<open>create_mock_popup\<close> (called by it), \<open>create_screenshot_2\<close>,
  \<open>create_screenshot_3\<close> and \<open>create_promo_tile\<close>.
\<close>

theorem five_font_fallbacks:
  "count_list (snd (main bare_env)) LoadDefault = 5"
  using main_fallbacks[of bare_env]
  by (simp add: bare_env_facts)

lemma fonts_of_ops_append: "fonts_of_ops (xs @ ys) = fonts_of_ops xs @ fonts_of_ops ys"
  by (induction xs rule: fonts_of_ops.induct) simp_all

lemma fonts_of_gradient_rows: "fonts_of_ops (map (gradient_row w h s e) ys) = []"
proof -
  obtain sr sg sb er eg eb where "s = (sr, sg, sb)" "e = (er, eg, eb)"
    by (metis prod_cases3)
  then show ?thesis by (induction ys) (simp_all add: gradient_row_eq)
qed

lemma fonts_of_card_rows: "fonts_of_ops (map (result_card_row w p y h) is) = []"
  by (induction "is") (simp_all add: result_card_row_def Let_def)

lemma fonts_used_gradient:
  assumes "create_gradient_background sz sc ec = Inr g"
  shows "fonts_of_ops (img_ops g) = []"
proof -
  obtain w h where sz: "sz = (w, h)" by force
  from create_gradient_background_Inr[OF assms[unfolded sz]]
  obtain s e where "g = Image ''RGB'' w h (RGB 0 0 0) (map (gradient_row w h s e) [0..h - 1])"
    by blast
  then show ?thesis by (simp add: fonts_of_gradient_rows)
qed

lemma nth_in_fonts:
  assumes "i < length reqs"
  shows "fst (fonts_or_default e reqs) ! i \<in> set (fst (fonts_or_default e reqs))"
proof -
  have "length (fst (fonts_or_default e reqs)) = length reqs"
    by (simp add: fonts_or_default_fonts)
  then show ?thesis using assms by simp
qed

lemma promo_fonts:
  assumes "fst (create_promo_tile e) = Inr img"
  shows "set (fonts_used img) \<subseteq>
           set (fst (fonts_or_default e [(HELVETICA, 32), (HELVETICA, 18), (HELVETICA, 48)]))"
proof -
  obtain g where g: "create_gradient_background PROMO_TILE_SIZE PRIMARY_GRADIENT_START
                    PRIMARY_GRADIENT_END = Inr g"
    using gradient_promo by blast
  note n = nth_in_fonts[of _ "[(HELVETICA, 32), (HELVETICA, 18), (HELVETICA, 48)]" e]
  have "(0::nat) < 3" "(1::nat) < 3" "(2::nat) < 3" by simp_all
  then show ?thesis
    using assms g fonts_used_gradient[OF g] n[of 0] n[of 1] n[of 2]
    by (auto simp: create_promo_tile_def Let_def split_beta fonts_used_def draw_sel
        fonts_of_ops_append)
qed

lemma screenshot_3_fonts:
  assumes "fst (create_screenshot_3 e) = Inr img"
  shows "set (fonts_used img) \<subseteq> set (fst (fonts_or_default e [(HELVETICA, 56), (HELVETICA, 28)]))"
proof -
  obtain g where g: "create_gradient_background SCREENSHOT_SIZE ''#8b5cf6'' ''#6d28d9'' = Inr g"
    using gradient_screenshot_purple by blast
  note n = nth_in_fonts[of _ "[(HELVETICA, 56), (HELVETICA, 28)]" e]
  have "(0::nat) < 2" "(1::nat) < 2" by simp_all
  then show ?thesis
    using assms g fonts_used_gradient[OF g] n[of 0] n[of 1]
    by (auto simp: create_screenshot_3_def Let_def split_beta fonts_used_def draw_sel
        fonts_of_ops_append)
qed

lemma currency_card_ops:
  "img_ops (currency_card tf cf ics img) =
     img_ops img @ [RoundedRectangle
        (720 + (int (fst ics) mod 4) * 136, 180 + (int (fst ics) div 4) * 96,
         720 + (int (fst ics) mod 4) * 136 + 120, 180 + (int (fst ics) div 4) * 96 + 80) 12
        (Hex ''#ffffff20''),
      Text (720 + (int (fst ics) mod 4) * 136 + 15, 180 + (int (fst ics) div 4) * 96 + 15)
        (snd (snd ics)) (Hex WHITE) tf,
      Text (720 + (int (fst ics) mod 4) * 136 + 15, 180 + (int (fst ics) div 4) * 96 + 55)
        (ascii (fst (snd ics))) (Hex ''#ffffffaa'') cf]"
  by (simp add: currency_card_def Let_def split_beta draw_sel)

lemma fold_currency_card_fonts:
  "set (fonts_of_ops (img_ops (fold (currency_card tf cf) xs img)))
     \<subseteq> set (fonts_of_ops (img_ops img)) \<union> {tf, cf}"
proof (induction xs arbitrary: img)
  case Nil
  show ?case by auto
next
  case (Cons x xs)
  have "set (fonts_of_ops (img_ops (fold (currency_card tf cf) xs (currency_card tf cf x img))))
          \<subseteq> set (fonts_of_ops (img_ops (currency_card tf cf x img))) \<union> {tf, cf}"
    by (rule Cons.IH)
  moreover have "set (fonts_of_ops (img_ops (currency_card tf cf x img)))
          \<subseteq> set (fonts_of_ops (img_ops img)) \<union> {tf, cf}"
    by (auto simp: currency_card_ops fonts_of_ops_append)
  ultimately show ?case by auto
qed

lemma screenshot_2_fonts:
  assumes "fst (create_screenshot_2 e) = Inr img"
  shows "set (fonts_used img) \<subseteq>
           set (fst (fonts_or_default e [(HELVETICA, 56), (HELVETICA, 28), (HELVETICA, 24)]))"
proof -
  obtain g where g: "create_gradient_background SCREENSHOT_SIZE ''#10b981'' ''#059669'' = Inr g"
    using gradient_screenshot_green by blast
  let ?F = "fst (fonts_or_default e [(HELVETICA, 56), (HELVETICA, 28), (HELVETICA, 24)])"
  note n = nth_in_fonts[of _ "[(HELVETICA, 56), (HELVETICA, 28), (HELVETICA, 24)]" e]
  have m: "?F ! 0 \<in> set ?F" "?F ! 1 \<in> set ?F" "?F ! 2 \<in> set ?F"
    using n[of 0] n[of 1] n[of 2] by simp_all
  define base where "base =
    draw (Text (80, 450) (ascii ''Bitcoin, Ethereum, and more'') (Hex ''#ffffffcc'') (?F ! 1))
      (draw (Text (80, 360) (ascii ''Including Crypto'') (Hex WHITE) (?F ! 0))
        (draw (Text (80, 280) (ascii ''200+ Currencies'') (Hex WHITE) (?F ! 0)) g))"
  have b: "set (fonts_of_ops (img_ops base)) \<subseteq> set ?F"
    using m fonts_used_gradient[OF g] by (simp add: base_def draw_sel fonts_of_ops_append)
  have "img = fold (currency_card (?F ! 0) (?F ! 2))
                (zip [0..<length currencies_grid] currencies_grid) base"
    using assms g by (simp add: create_screenshot_2_def Let_def split_beta base_def)
  then show ?thesis
    using fold_currency_card_fonts[of "?F ! 0" "?F ! 2"
        "zip [0..<length currencies_grid] currencies_grid" base] b m
    by (auto simp: fonts_used_def)
qed

lemma quick_access_button_ops:
  "img_ops (fst (quick_access_button f y ic st)) =
     img_ops (fst st) @
       [RoundedRectangle (snd st, y, snd st + 50, y + 28) 14
          (Hex (if fst ic = 1 then PRIMARY_GRADIENT_START else ''#f8fafc'')),
        Text (snd st + 12, y + 6) (ascii (snd ic))
          (Hex (if fst ic = 1 then WHITE else ''#64748b'')) f]"
  by (simp add: quick_access_button_def Let_def split_beta draw_sel draw_rounded_rectangle_sel)

lemma fold_quick_access_button_fonts:
  "set (fonts_of_ops (img_ops (fst (fold (quick_access_button f y) xs st))))
     \<subseteq> set (fonts_of_ops (img_ops (fst st))) \<union> {f}"
proof (induction xs arbitrary: st)
  case Nil
  show ?case by auto
next
  case (Cons x xs)
  have "set (fonts_of_ops (img_ops (fst (fold (quick_access_button f y) xs
              (quick_access_button f y x st)))))
          \<subseteq> set (fonts_of_ops (img_ops (fst (quick_access_button f y x st)))) \<union> {f}"
    by (rule Cons.IH)
  moreover have "set (fonts_of_ops (img_ops (fst (quick_access_button f y x st))))
          \<subseteq> set (fonts_of_ops (img_ops (fst st))) \<union> {f}"
    by (auto simp: quick_access_button_ops fonts_of_ops_append)
  ultimately show ?case by auto
qed

lemma popup_fonts:
  assumes "fst (create_mock_popup e (w, h)) = Inr img"
  shows "set (fonts_used img) \<subseteq>
           set (fst (fonts_or_default e
             [(HELVETICA, 16), (HELVETICA, 14), (HELVETICA, 12), (HELVETICA, 32)]))"
proof -
  let ?F = "fst (fonts_or_default e
             [(HELVETICA, 16), (HELVETICA, 14), (HELVETICA, 12), (HELVETICA, 32)])"
  note n = nth_in_fonts[of _ "[(HELVETICA, 16), (HELVETICA, 14), (HELVETICA, 12), (HELVETICA, 32)]" e]
  have m: "?F ! 0 \<in> set ?F" "?F ! 1 \<in> set ?F" "?F ! 2 \<in> set ?F" "?F ! 3 \<in> set ?F"
    using n[of 0] n[of 1] n[of 2] n[of 3] by simp_all
  show ?thesis
    using assms m
    by (auto simp: create_mock_popup_def Image_new_def Let_def split_beta fonts_used_def draw_sel
        draw_rounded_rectangle_sel fold_draw_ops fonts_of_ops_append fonts_of_card_rows
        quick_access_button_ops
        split: option.splits if_splits)
qed

lemma screenshot_1_fonts:
  assumes "fst (create_screenshot_1 e) = Inr img"
  shows "set (fonts_used img) \<subseteq> set (fst (fonts_or_default e [(HELVETICA, 56), (HELVETICA, 28)]))"
proof -
  obtain g where g: "create_gradient_background SCREENSHOT_SIZE PRIMARY_GRADIENT_START
                    PRIMARY_GRADIENT_END = Inr g"
    using gradient_screenshot_blue by blast
  have sh: "Image_new ''RGBA'' (380, 440) (RGBA 0 0 0 0) = Inr (Image ''RGBA'' 380 440 (RGBA 0 0 0 0) [])"
    by (simp add: Image_new_def)
  note n = nth_in_fonts[of _ "[(HELVETICA, 56), (HELVETICA, 28)]" e]
  have "(0::nat) < 2" "(1::nat) < 2" by simp_all
  then show ?thesis
    using assms g sh fonts_used_gradient[OF g] n[of 0] n[of 1]
    by (auto simp: create_screenshot_1_def Let_def split_beta fonts_used_def draw_sel
        fonts_of_ops_append split: sum.splits)
qed

lemma site_fonts:
  assumes "set (fonts_used img) \<subseteq> set (fst (fonts_or_default e reqs))"
  shows "(\<not> list_all (loads e) reqs \<longrightarrow> set (fonts_used img) \<subseteq> {DefaultFont}) \<and>
         (list_all (loads e) reqs \<longrightarrow> DefaultFont \<notin> set (fonts_used img))"
  using assms by (auto simp: fonts_or_default_fonts requested_font_def split: if_splits)

text \<open>
  Claim C2, amended. No \<open>create_*\<close> function of the store-asset script ever raises the
  exception of a failed font load, on any machine and for any popup size. The default
  font is substituted at five places, each on its own: in \<open>create_mock_popup\<close>,
  \<open>create_screenshot_1\<close>, \<open>create_screenshot_2\<close>, \<open>create_screenshot_3\<close> and
  \<open>create_promo_tile\<close>, every text of the returned canvas is drawn in the default font
  when one of the fonts that this function requests fails to load, and none is when all
  of them load, whatever happens to the fonts of the other functions. A run of the
  driver in which text can be measured and files written calls \<open>load_default\<close> once for
  each of the five places whose fonts do not all load.
\<close>

theorem font_failures_are_replaced:
  "fst (create_mock_popup e (w, h)) \<noteq> Inl FontLoadError \<and>
   fst (create_screenshot_1 e) \<noteq> Inl FontLoadError \<and>
   fst (create_screenshot_2 e) \<noteq> Inl FontLoadError \<and>
   fst (create_screenshot_3 e) \<noteq> Inl FontLoadError \<and>
   fst (create_promo_tile e) \<noteq> Inl FontLoadError \<and>
   (\<forall>img. fst (create_mock_popup e (w, h)) = Inr img \<longrightarrow>
      (\<not> list_all (loads e) [(HELVETICA, 16), (HELVETICA, 14), (HELVETICA, 12), (HELVETICA, 32)]
         \<longrightarrow> set (fonts_used img) \<subseteq> {DefaultFont}) \<and>
      (list_all (loads e) [(HELVETICA, 16), (HELVETICA, 14), (HELVETICA, 12), (HELVETICA, 32)]
         \<longrightarrow> DefaultFont \<notin> set (fonts_used img))) \<and>
   (\<forall>img. fst (create_screenshot_1 e) = Inr img \<longrightarrow>
      (\<not> list_all (loads e) [(HELVETICA, 56), (HELVETICA, 28)]
         \<longrightarrow> set (fonts_used img) \<subseteq> {DefaultFont}) \<and>
      (list_all (loads e) [(HELVETICA, 56), (HELVETICA, 28)]
         \<longrightarrow> DefaultFont \<notin> set (fonts_used img))) \<and>
   (\<forall>img. fst (create_screenshot_2 e) = Inr img \<longrightarrow>
      (\<not> list_all (loads e) [(HELVETICA, 56), (HELVETICA, 28), (HELVETICA, 24)]
         \<longrightarrow> set (fonts_used img) \<subseteq> {DefaultFont}) \<and>
      (list_all (loads e) [(HELVETICA, 56), (HELVETICA, 28), (HELVETICA, 24)]
         \<longrightarrow> DefaultFont \<notin> set (fonts_used img))) \<and>
   (\<forall>img. fst (create_screenshot_3 e) = Inr img \<longrightarrow>
      (\<not> list_all (loads e) [(HELVETICA, 56), (HELVETICA, 28)]
         \<longrightarrow> set (fonts_used img) \<subseteq> {DefaultFont}) \<and>
      (list_all (loads e) [(HELVETICA, 56), (HELVETICA, 28)]
         \<longrightarrow> DefaultFont \<notin> set (fonts_used img))) \<and>
   (\<forall>img. fst (create_promo_tile e) = Inr img \<longrightarrow>
      (\<not> list_all (loads e) [(HELVETICA, 32), (HELVETICA, 18), (HELVETICA, 48)]
         \<longrightarrow> set (fonts_used img) \<subseteq> {DefaultFont}) \<and>
      (list_all (loads e) [(HELVETICA, 32), (HELVETICA, 18), (HELVETICA, 48)]
         \<longrightarrow> DefaultFont \<notin> set (fonts_used img))) \<and>
   ((\<forall>name. can_write e name) \<and>
    text_bbox e (fst (fonts_or_default e
        [(HELVETICA, 16), (HELVETICA, 14), (HELVETICA, 12), (HELVETICA, 32)]) ! 1)
      (ascii ''Save to History'') \<noteq> None \<longrightarrow>
    count_list (snd (main e)) LoadDefault =
      (if list_all (loads e) [(HELVETICA, 56), (HELVETICA, 28)] then 0 else 1) +
      (if list_all (loads e) [(HELVETICA, 16), (HELVETICA, 14), (HELVETICA, 12), (HELVETICA, 32)]
       then 0 else 1) +
      (if list_all (loads e) [(HELVETICA, 56), (HELVETICA, 28), (HELVETICA, 24)] then 0 else 1) +
      (if list_all (loads e) [(HELVETICA, 56), (HELVETICA, 28)] then 0 else 1) +
      (if list_all (loads e) [(HELVETICA, 32), (HELVETICA, 18), (HELVETICA, 48)] then 0 else 1))"
proof -
  have a1: "fst (create_mock_popup e (w, h)) \<noteq> Inl FontLoadError"
    using create_mock_popup_cases[of e w h] by auto
  have a2: "fst (create_screenshot_1 e) \<noteq> Inl FontLoadError"
    using create_screenshot_1_eq(1)[of e] by auto
  have a3: "fst (create_screenshot_2 e) \<noteq> Inl FontLoadError"
    using create_screenshot_2_eq[of e] by auto
  have a4: "fst (create_screenshot_3 e) \<noteq> Inl FontLoadError"
    using create_screenshot_3_eq[of e] by auto
  have a5: "fst (create_promo_tile e) \<noteq> Inl FontLoadError"
    using create_promo_tile_eq[of e] by auto
  note b1 = site_fonts[OF popup_fonts] and b2 = site_fonts[OF screenshot_1_fonts]
    and b3 = site_fonts[OF screenshot_2_fonts] and b4 = site_fonts[OF screenshot_3_fonts]
    and b5 = site_fonts[OF promo_fonts]
  have c: "(\<forall>name. can_write e name) \<and>
    text_bbox e (fst (fonts_or_default e
        [(HELVETICA, 16), (HELVETICA, 14), (HELVETICA, 12), (HELVETICA, 32)]) ! 1)
      (ascii ''Save to History'') \<noteq> None \<longrightarrow>
    count_list (snd (main e)) LoadDefault =
      (if list_all (loads e) [(HELVETICA, 56), (HELVETICA, 28)] then 0 else 1) +
      (if list_all (loads e) [(HELVETICA, 16), (HELVETICA, 14), (HELVETICA, 12), (HELVETICA, 32)]
       then 0 else 1) +
      (if list_all (loads e) [(HELVETICA, 56), (HELVETICA, 28), (HELVETICA, 24)] then 0 else 1) +
      (if list_all (loads e) [(HELVETICA, 56), (HELVETICA, 28)] then 0 else 1) +
      (if list_all (loads e) [(HELVETICA, 32), (HELVETICA, 18), (HELVETICA, 48)] then 0 else 1)"
    using main_fallbacks[of e] by blast
  show ?thesis
    using a1 a2 a3 a4 a5 b1 b2 b3 b4 b5 c by (intro conjI allI impI) blast+
qed

theorem font_failures_are_replaced_witness:
  "fst (create_promo_tile partial_env) \<noteq> Inl FontLoadError \<and>
   count_list (snd (main partial_env)) LoadDefault = 3"
  using font_failures_are_replaced[of partial_env 360 420]
  by (simp add: partial_env_facts)


end
